theory Spec2Isabelle
  imports Complex_Main
begin

section \<open>Gaussian per-neuron statistics of vdna (vdna\_gauss.py)\<close>

text \<open>
  The embedding follows \<^verbatim>\<open>src/vdna/vdnas/vdna_gauss.py\<close>. Tensor entries are modelled
  in exact arithmetic: an entry is either a real number or a non-finite value (the
  infinities and NaN of the floating-point type, which the operations used by this
  file never turn back into a finite number). Python dictionaries are association
  lists in insertion order with distinct keys; exceptions are values of a sum type.

  The library calls behave as torch and numpy document them: \<^verbatim>\<open>view(0, -1)\<close> raises
  RuntimeError (the dimension \<^verbatim>\<open>-1\<close> cannot be inferred), \<^verbatim>\<open>torch.cat\<close> of an empty list
  raises RuntimeError, elementwise operations broadcast a tensor of length 1, dividing a
  tensor by the integer 0 raises nothing and gives non-finite entries, and \<^verbatim>\<open>np.load\<close>
  without \<^verbatim>\<open>allow_pickle\<close> raises ValueError when an object array is read.
\<close>

subsection \<open>Errors\<close>

datatype error =
    RuntimeError          \<comment> \<open>raised by torch (view of an empty batch, shape mismatch, cat of nothing)\<close>
  | IndexError            \<comment> \<open>index out of range, or shape[0] of a 0-dimensional tensor\<close>
  | KeyError              \<comment> \<open>missing dictionary or archive key\<close>
  | ValueError            \<comment> \<open>numpy refuses to load an object array\<close>
  | FileNotFoundError
  | SchemaMismatchError

definition bindE :: "error + 'a \<Rightarrow> ('a \<Rightarrow> error + 'b) \<Rightarrow> error + 'b" where
  "bindE m f = (case m of Inl e \<Rightarrow> Inl e | Inr x \<Rightarrow> f x)"

subsection \<open>Tensor entries\<close>

text \<open>\<open>None\<close> stands for a non-finite entry (inf or NaN).\<close>

type_synonym elem = "real option"

definition fadd :: "elem \<Rightarrow> elem \<Rightarrow> elem" where
  "fadd x y = (case x of None \<Rightarrow> None | Some a \<Rightarrow> (case y of None \<Rightarrow> None | Some b \<Rightarrow> Some (a + b)))"

definition fsub :: "elem \<Rightarrow> elem \<Rightarrow> elem" where
  "fsub x y = (case x of None \<Rightarrow> None | Some a \<Rightarrow> (case y of None \<Rightarrow> None | Some b \<Rightarrow> Some (a - b)))"

definition fsquare :: "elem \<Rightarrow> elem" where
  \<comment> \<open>\<^verbatim>\<open>x ** 2\<close>\<close>
  "fsquare x = (case x of None \<Rightarrow> None | Some a \<Rightarrow> Some (a * a))"

definition fscale :: "elem \<Rightarrow> int \<Rightarrow> elem" where
  \<comment> \<open>a tensor entry times a Python integer\<close>
  "fscale x k = (case x of None \<Rightarrow> None | Some a \<Rightarrow> Some (a * real_of_int k))"

definition fdiv_int :: "elem \<Rightarrow> int \<Rightarrow> elem" where
  \<comment> \<open>a tensor entry divided by a Python integer: dividing by zero raises nothing and
      gives inf or NaN\<close>
  "fdiv_int x k =
     (case x of None \<Rightarrow> None
      | Some a \<Rightarrow> if k = 0 then None else Some (a / real_of_int k))"

definition fsum :: "elem list \<Rightarrow> elem" where
  "fsum xs = foldr fadd xs (Some 0)"

subsection \<open>Tensors\<close>

text \<open>
  A tensor is its shape and its entries in row-major order; \<open>wf_tensor\<close> says that the
  number of entries is the product of the dimensions.
\<close>

record tensor =
  shape :: "nat list"
  elems :: "elem list"

definition wf_tensor :: "tensor \<Rightarrow> bool" where
  "wf_tensor t = (length (elems t) = prod_list (shape t))"

definition view_batch :: "tensor \<Rightarrow> error + (nat \<times> nat \<times> elem list)" where
  \<comment> \<open>\<^verbatim>\<open>features.view(features.shape[0], -1)\<close>: number of samples, number of neurons and
      the unchanged row-major entries. \<^verbatim>\<open>shape[0]\<close> of a 0-dimensional tensor raises
      IndexError; torch refuses to infer the dimension \<^verbatim>\<open>-1\<close> when the other one is 0.\<close>
  "view_batch t =
     (case shape t of
        [] \<Rightarrow> Inl IndexError
      | n # rest \<Rightarrow>
          if n = 0 then Inl RuntimeError
          else Inr (n, length (elems t) div n, elems t))"

definition column :: "nat \<Rightarrow> nat \<Rightarrow> elem list \<Rightarrow> nat \<Rightarrow> elem list" where
  \<comment> \<open>the values of neuron \<open>j\<close> over the \<open>n\<close> samples of an \<open>n \<times> m\<close> batch\<close>
  "column n m xs j = map (\<lambda>i. xs ! (i * m + j)) [0..<n]"

definition torch_mean0 :: "nat \<Rightarrow> nat \<Rightarrow> elem list \<Rightarrow> elem list" where
  \<comment> \<open>\<^verbatim>\<open>torch.mean(features, dim=0)\<close>\<close>
  "torch_mean0 n m xs = map (\<lambda>j. fdiv_int (fsum (column n m xs j)) (int n)) [0..<m]"

definition torch_var0 :: "nat \<Rightarrow> nat \<Rightarrow> elem list \<Rightarrow> elem list" where
  \<comment> \<open>\<^verbatim>\<open>torch.var(features, dim=0, correction=1)\<close>\<close>
  "torch_var0 n m xs =
     map (\<lambda>j. let c = column n m xs j;
                   avg = fdiv_int (fsum c) (int n)
               in fdiv_int (fsum (map (\<lambda>x. fsquare (fsub x avg)) c)) (int n - 1))
         [0..<m]"

definition zeros_like :: "elem list \<Rightarrow> elem list" where
  "zeros_like v = replicate (length v) (Some 0)"

subsection \<open>Fitting\<close>

record params =
  mu :: "elem list"
  var :: "elem list"

definition one_sample_warning :: string where
  "one_sample_warning = ''Warning: only one sample, variance of VDNA with Gaussian is set to 0''"

definition get_gaussian_params :: "tensor \<Rightarrow> error + (params \<times> string list)" where
  \<comment> \<open>the result and the lines printed\<close>
  "get_gaussian_params features =
     (case view_batch features of
        Inl e \<Rightarrow> Inl e
      | Inr (n, m, xs) \<Rightarrow>
          let mu' = torch_mean0 n m xs in
          if n > 1 then Inr (\<lparr>mu = mu', var = torch_var0 n m xs\<rparr>, [])
          else Inr (\<lparr>mu = mu', var = zeros_like mu'\<rparr>, [one_sample_warning]))"

text \<open>Python dictionaries: insertion order, an assignment to a present key keeps its place.\<close>

type_synonym 'v dict = "(string \<times> 'v) list"

fun dict_set :: "'v dict \<Rightarrow> string \<Rightarrow> 'v \<Rightarrow> 'v dict" where
  "dict_set [] k v = [(k, v)]"
| "dict_set ((k', v') # d) k v = (if k' = k then (k, v) # d else (k', v') # dict_set d k v)"

definition dict_get :: "'v dict \<Rightarrow> string \<Rightarrow> error + 'v" where
  "dict_get d k = (case map_of d k of None \<Rightarrow> Inl KeyError | Some v \<Rightarrow> Inr v)"

text \<open>
  The object: \<open>data\<close> is set by this class; \<open>num_images\<close> is an attribute of the
  base class \<^verbatim>\<open>VDNA\<close> that this file reads. The other attribute read here,
  \<^verbatim>\<open>neurons_list\<close>, is an argument of \<open>load_dist_data\<close> below.
\<close>

record vdna =
  data :: "params dict"
  num_images :: int

fun fit_loop ::
  "tensor dict \<Rightarrow> string list \<Rightarrow> params dict \<Rightarrow> string list \<Rightarrow> error option \<times> params dict \<times> string list" where
  "fit_loop fd [] d out = (None, d, out)"
| "fit_loop fd (layer # ls) d out =
     (case dict_get fd layer of
        Inl e \<Rightarrow> (Some e, d, out)
      | Inr t \<Rightarrow>
          (case get_gaussian_params t of
             Inl e \<Rightarrow> (Some e, d, out)
           | Inr (p, printed) \<Rightarrow> fit_loop fd ls (dict_set d layer p) (out @ printed)))"

definition fit_distribution ::
  "vdna \<Rightarrow> tensor dict \<Rightarrow> string list \<Rightarrow> error option \<times> vdna \<times> string list" where
  \<comment> \<open>the exception raised (if any), the object afterwards and the standard output\<close>
  "fit_distribution self features_dict out =
     (case fit_loop features_dict (map fst features_dict) [] out of
        (e, d, out') \<Rightarrow> (e, self\<lparr>data := d\<rparr>, out'))"

subsection \<open>Persistence\<close>

text \<open>
  What \<^verbatim>\<open>np.savez_compressed\<close> receives for a key: an array, or the empty dictionary
  that \<^verbatim>\<open>data[layer] = {}\<close> puts there, which numpy stores as an object array and
  refuses to read back (\<^verbatim>\<open>np.load\<close> is called without \<^verbatim>\<open>allow_pickle\<close>).
  The cast \<^verbatim>\<open>astype(np.float32)\<close> is the parameter \<open>f32\<close>; the path computed by
  \<^verbatim>\<open>Path(file_path).with_suffix(".npz")\<close> is the parameter \<open>npz\<close>.
\<close>

datatype npvalue = NpArray "elem list" | NpObject

type_synonym archive = "npvalue dict"
type_synonym filesystem = "string \<Rightarrow> archive option"

fun save_loop :: "(elem \<Rightarrow> elem) \<Rightarrow> params dict \<Rightarrow> string list \<Rightarrow> archive \<Rightarrow> error + archive" where
  "save_loop f32 d [] acc = Inr acc"
| "save_loop f32 d (layer # ls) acc =
     bindE (dict_get d layer) (\<lambda>p.
       save_loop f32 d ls
         (dict_set
            (dict_set (dict_set acc layer NpObject)
               (''mu-'' @ layer) (NpArray (map f32 (mu p))))
            (''var-'' @ layer) (NpArray (map f32 (var p)))))"

definition save_dist_data ::
  "(elem \<Rightarrow> elem) \<Rightarrow> (string \<Rightarrow> string) \<Rightarrow> vdna \<Rightarrow> filesystem \<Rightarrow> string \<Rightarrow> error + filesystem" where
  "save_dist_data f32 npz self fs file_path =
     bindE (save_loop f32 (data self) (map fst (data self)) [])
       (\<lambda>ar. Inr (fs(npz file_path := Some ar)))"

definition np_get :: "archive \<Rightarrow> string \<Rightarrow> error + elem list" where
  \<comment> \<open>\<^verbatim>\<open>torch.from_numpy(loaded_data[key])\<close>\<close>
  "np_get ar key =
     (case map_of ar key of
        None \<Rightarrow> Inl KeyError
      | Some NpObject \<Rightarrow> Inl ValueError
      | Some (NpArray xs) \<Rightarrow> Inr xs)"

fun load_loop :: "archive \<Rightarrow> string list \<Rightarrow> params dict \<Rightarrow> error + params dict" where
  "load_loop ar [] d = Inr d"
| "load_loop ar (layer # ls) d =
     bindE (np_get ar (''mu-'' @ layer)) (\<lambda>m.
     bindE (np_get ar (''var-'' @ layer)) (\<lambda>v.
       load_loop ar ls (dict_set d layer \<lparr>mu = m, var = v\<rparr>)))"

definition load_dist_data ::
  "(string \<Rightarrow> string) \<Rightarrow> string list \<Rightarrow> vdna \<Rightarrow> filesystem \<Rightarrow> string \<Rightarrow> error + vdna" where
  \<comment> \<open>the object after a successful load; what a failed load leaves in \<open>data\<close> is not modelled\<close>
  "load_dist_data npz neurons_list self fs file_path =
     (case fs (npz file_path) of
        None \<Rightarrow> Inl FileNotFoundError
      | Some ar \<Rightarrow> bindE (load_loop ar neurons_list []) (\<lambda>d. Inr (self\<lparr>data := d\<rparr>)))"

subsection \<open>Queries\<close>

definition tensor_index :: "elem list \<Rightarrow> int \<Rightarrow> error + elem" where
  \<comment> \<open>\<^verbatim>\<open>v[i]\<close> for a 1-dimensional tensor and a Python integer: an index from
      \<open>- length v\<close> up to \<open>-1\<close> counts from the end\<close>
  "tensor_index v i =
     (if 0 \<le> i \<and> i < int (length v) then Inr (v ! nat i)
      else if - int (length v) \<le> i \<and> i < 0 then Inr (v ! nat (int (length v) + i))
      else Inl IndexError)"

definition get_neuron_dist :: "vdna \<Rightarrow> string \<Rightarrow> int \<Rightarrow> error + (elem \<times> elem)" where
  \<comment> \<open>the pair is the dictionary with the keys "mu" and "var"\<close>
  "get_neuron_dist self layer_name neuron_idx =
     bindE (dict_get (data self) layer_name) (\<lambda>p.
     bindE (tensor_index (mu p) neuron_idx) (\<lambda>m.
     bindE (dict_get (data self) layer_name) (\<lambda>q.
     bindE (tensor_index (var q) neuron_idx) (\<lambda>v. Inr (m, v)))))"

definition get_all_neurons_in_layer_dist :: "vdna \<Rightarrow> string \<Rightarrow> error + params" where
  "get_all_neurons_in_layer_dist self layer_name =
     bindE (dict_get (data self) layer_name) (\<lambda>p.
     bindE (dict_get (data self) layer_name) (\<lambda>q. Inr \<lparr>mu = mu p, var = var q\<rparr>))"

definition torch_cat :: "elem list list \<Rightarrow> error + elem list" where
  \<comment> \<open>\<^verbatim>\<open>torch.cat\<close> of 1-dimensional tensors; an empty list of tensors is refused\<close>
  "torch_cat ts = (case ts of [] \<Rightarrow> Inl RuntimeError | _ # _ \<Rightarrow> Inr (concat ts))"

fun all_loop ::
  "params dict \<Rightarrow> string list \<Rightarrow> elem list list \<Rightarrow> elem list list \<Rightarrow> error + (elem list list \<times> elem list list)" where
  "all_loop d [] mus variances = Inr (mus, variances)"
| "all_loop d (layer_name # ls) mus variances =
     bindE (dict_get d layer_name) (\<lambda>p.
     bindE (dict_get d layer_name) (\<lambda>q.
       all_loop d ls (mus @ [mu p]) (variances @ [var q])))"

definition get_all_neurons_dists :: "vdna \<Rightarrow> error + params" where
  "get_all_neurons_dists self =
     bindE (all_loop (data self) (map fst (data self)) [] []) (\<lambda>(mus, variances).
     bindE (torch_cat mus) (\<lambda>m.
     bindE (torch_cat variances) (\<lambda>v. Inr \<lparr>mu = m, var = v\<rparr>)))"

subsection \<open>Merging\<close>

definition bcast :: "(elem \<Rightarrow> elem \<Rightarrow> elem) \<Rightarrow> elem list \<Rightarrow> elem list \<Rightarrow> error + elem list" where
  \<comment> \<open>an elementwise operation on two 1-dimensional tensors, with torch's broadcasting\<close>
  "bcast f xs ys =
     (if length xs = length ys then Inr (map2 f xs ys)
      else if length xs = 1 then Inr (map (f (hd xs)) ys)
      else if length ys = 1 then Inr (map (\<lambda>x. f x (hd ys)) xs)
      else Inl RuntimeError)"

definition tscale :: "elem list \<Rightarrow> int \<Rightarrow> elem list" where
  "tscale v k = map (\<lambda>x. fscale x k) v"

definition tdiv :: "elem list \<Rightarrow> int \<Rightarrow> elem list" where
  "tdiv v k = map (\<lambda>x. fdiv_int x k) v"

definition tsquare :: "elem list \<Rightarrow> elem list" where
  "tsquare v = map fsquare v"

definition add_mu :: "params \<Rightarrow> int \<Rightarrow> params \<Rightarrow> int \<Rightarrow> error + elem list" where
  \<comment> \<open>lines 84 to 86\<close>
  "add_mu pa na pb nb =
     bindE (bcast fadd (tscale (mu pa) na) (tscale (mu pb) nb)) (\<lambda>s.
       Inr (tdiv s (na + nb)))"

definition add_var :: "params \<Rightarrow> int \<Rightarrow> params \<Rightarrow> int \<Rightarrow> elem list \<Rightarrow> error + elem list" where
  \<comment> \<open>lines 88 to 93; \<open>mu_new\<close> is the combined mean just stored\<close>
  "add_var pa na pb nb mu_new =
     bindE (bcast fsub (mu pa) mu_new) (\<lambda>da.
     bindE (bcast fadd (tscale (var pa) (na - 1)) (tscale (tsquare da) na)) (\<lambda>s1.
     bindE (bcast fadd s1 (tscale (var pb) (nb - 1))) (\<lambda>s2.
     bindE (bcast fsub (mu pb) mu_new) (\<lambda>db.
     bindE (bcast fadd s2 (tscale (tsquare db) nb)) (\<lambda>s3.
       Inr (tdiv s3 (na + nb - 1)))))))"

fun add_loop :: "vdna \<Rightarrow> vdna \<Rightarrow> string list \<Rightarrow> params dict \<Rightarrow> error + params dict" where
  "add_loop self other [] nd = Inr nd"
| "add_loop self other (layer # ls) nd =
     bindE (dict_get (data self) layer) (\<lambda>pa.
     bindE (dict_get (data other) layer) (\<lambda>pb.
     bindE (add_mu pa (num_images self) pb (num_images other)) (\<lambda>m.
     bindE (add_var pa (num_images self) pb (num_images other) m) (\<lambda>v.
       add_loop self other ls (dict_set nd layer \<lparr>mu = m, var = v\<rparr>)))))"

definition same_schema :: "vdna \<Rightarrow> vdna \<Rightarrow> bool" where
  \<comment> \<open>the identical set of layer names and, per layer, identical neuron counts\<close>
  "same_schema a b =
     (set (map fst (data a)) = set (map fst (data b)) \<and>
      list_all (\<lambda>l. map_option (\<lambda>p. length (mu p)) (map_of (data a) l) =
                     map_option (\<lambda>p. length (mu p)) (map_of (data b) l))
               (map fst (data a)))"

definition common_before_add :: "vdna \<Rightarrow> vdna \<Rightarrow> vdna \<Rightarrow> error + vdna" where
  \<comment> \<open>Modelled from the spec: \<^verbatim>\<open>VDNA._common_before_add\<close> of the base class
      (vdna\_base.py is not part of the sources). Section 4.3: the operands must have
      the identical set of layer names and, per layer, identical neuron counts,
      otherwise SchemaMismatchError; the result's sample count is \<open>n_a + n_b\<close>.\<close>
  "common_before_add self other new_vdna =
     (if same_schema self other
      then Inr (new_vdna\<lparr>num_images := num_images self + num_images other\<rparr>)
      else Inl SchemaMismatchError)"

definition new_VDNAGauss :: vdna where
  \<comment> \<open>\<^verbatim>\<open>VDNAGauss()\<close>: \<open>data\<close> is empty; \<open>num_images\<close> is overwritten before it is read\<close>
  "new_VDNAGauss = \<lparr>data = [], num_images = 0\<rparr>"

definition vdna_add :: "vdna \<Rightarrow> vdna \<Rightarrow> error + vdna" where
  \<comment> \<open>\<^verbatim>\<open>VDNAGauss.__add__\<close>\<close>
  "vdna_add self other =
     bindE (common_before_add self other new_VDNAGauss) (\<lambda>new_vdna.
     bindE (add_loop self other (map fst (data self)) (data new_vdna)) (\<lambda>d.
       Inr (new_vdna\<lparr>data := d\<rparr>)))"

subsection \<open>Vocabulary of the statements\<close>

text \<open>
  \<open>fits ps res\<close>: \<open>res\<close> lists, layer by layer, what \<open>get_gaussian_params\<close> returns and
  prints for the batches of \<open>ps\<close>, none of them raising.
\<close>

definition fits :: "tensor dict \<Rightarrow> (string \<times> params \<times> string list) list \<Rightarrow> bool" where
  "fits ps res = list_all2 (\<lambda>(l, t) (l', p, w). l' = l \<and> get_gaussian_params t = Inr (p, w)) ps res"

definition stats_of :: "(string \<times> params \<times> string list) list \<Rightarrow> params dict" where
  "stats_of res = map (\<lambda>(l, p, w). (l, p)) res"

definition printed_of :: "(string \<times> params \<times> string list) list \<Rightarrow> string list" where
  "printed_of res = concat (map (\<lambda>(l, p, w). w) res)"

text \<open>
  \<open>loaded_from ar l lp\<close>: the entry \<open>lp\<close> is layer \<open>l\<close> with the two arrays that the
  archive holds under the keys \<^verbatim>\<open>mu-<l>\<close> and \<^verbatim>\<open>var-<l>\<close>.
\<close>

definition loaded_from :: "archive \<Rightarrow> string \<Rightarrow> string \<times> params \<Rightarrow> bool" where
  "loaded_from ar l lp =
     (fst lp = l \<and> np_get ar (''mu-'' @ l) = Inr (mu (snd lp)) \<and>
      np_get ar (''var-'' @ l) = Inr (var (snd lp)))"

text \<open>
  \<open>merge_layer\<close>: lines 84 to 93 for two layers of the same length, where no broadcasting
  takes place. \<open>wf_vdna\<close>: the layer names are the keys of a dictionary and every layer
  has as many variances as means.
\<close>

definition merge_layer :: "int \<Rightarrow> int \<Rightarrow> params \<Rightarrow> params \<Rightarrow> params" where
  "merge_layer na nb pa pb =
     (let m = tdiv (map2 fadd (tscale (mu pa) na) (tscale (mu pb) nb)) (na + nb)
      in \<lparr>mu = m,
          var = tdiv (map2 fadd
                  (map2 fadd
                     (map2 fadd (tscale (var pa) (na - 1)) (tscale (tsquare (map2 fsub (mu pa) m)) na))
                     (tscale (var pb) (nb - 1)))
                  (tscale (tsquare (map2 fsub (mu pb) m)) nb))
                (na + nb - 1)\<rparr>)"

definition wf_vdna :: "vdna \<Rightarrow> bool" where
  "wf_vdna s = (distinct (map fst (data s)) \<and> list_all (\<lambda>(l, p). length (var p) = length (mu p)) (data s))"

definition merged_from :: "vdna \<Rightarrow> vdna \<Rightarrow> string \<times> params \<Rightarrow> string \<times> params \<Rightarrow> bool" where
  "merged_from a b lpa lpr =
     (fst lpr = fst lpa \<and>
      (case map_of (data b) (fst lpa) of
         None \<Rightarrow> False
       | Some pb \<Rightarrow> length (mu pb) = length (mu (snd lpa)) \<and>
                   snd lpr = merge_layer (num_images a) (num_images b) (snd lpa) pb))"

text \<open>
  The statistics the spec names, on the real values \<open>zs\<close> of one neuron over the samples:
  the arithmetic mean and the unbiased sample variance (the sum of squared deviations from
  the mean divided by the number of samples minus one). \<open>neuron_samples n m xs j\<close> are the
  values of neuron \<open>j\<close> in a batch of \<open>n\<close> samples of \<open>m\<close> neurons each, stored row by row
  in \<open>xs\<close>; \<open>unbiased_stats\<close> collects the two statistics of every neuron.
\<close>

definition sample_mean :: "real list \<Rightarrow> real" where
  "sample_mean zs = sum_list zs / real (length zs)"

definition sample_variance :: "real list \<Rightarrow> real" where
  "sample_variance zs =
     sum_list (map (\<lambda>z. (z - sample_mean zs)\<^sup>2) zs) / (real (length zs) - 1)"

definition neuron_samples :: "nat \<Rightarrow> nat \<Rightarrow> real list \<Rightarrow> nat \<Rightarrow> real list" where
  "neuron_samples n m xs j = map (\<lambda>i. xs ! (i * m + j)) [0..<n]"

definition unbiased_stats :: "nat \<Rightarrow> nat \<Rightarrow> real list \<Rightarrow> params" where
  "unbiased_stats n m xs =
     \<lparr>mu = map (\<lambda>j. Some (sample_mean (neuron_samples n m xs j))) [0..<m],
      var = map (\<lambda>j. Some (sample_variance (neuron_samples n m xs j))) [0..<m]\<rparr>"

text \<open>
  The combination formulas of section 4.3 of the spec, on real numbers, and the same
  computation on one tensor entry of each operand as lines 84 to 93 perform it.
\<close>

definition mu_combined :: "real \<Rightarrow> int \<Rightarrow> real \<Rightarrow> int \<Rightarrow> real" where
  "mu_combined mu_a n_a mu_b n_b =
     (mu_a * real_of_int n_a + mu_b * real_of_int n_b) / real_of_int (n_a + n_b)"

definition var_combined :: "real \<Rightarrow> real \<Rightarrow> int \<Rightarrow> real \<Rightarrow> real \<Rightarrow> int \<Rightarrow> real" where
  "var_combined mu_a var_a n_a mu_b var_b n_b =
     (var_a * real_of_int (n_a - 1) + real_of_int n_a * (mu_a - mu_combined mu_a n_a mu_b n_b)\<^sup>2 +
      var_b * real_of_int (n_b - 1) + real_of_int n_b * (mu_b - mu_combined mu_a n_a mu_b n_b)\<^sup>2)
     / real_of_int (n_a + n_b - 1)"

definition elem_mu :: "int \<Rightarrow> int \<Rightarrow> elem \<Rightarrow> elem \<Rightarrow> elem" where
  "elem_mu na nb xa xb = fdiv_int (fadd (fscale xa na) (fscale xb nb)) (na + nb)"

definition elem_var :: "int \<Rightarrow> int \<Rightarrow> elem \<Rightarrow> elem \<Rightarrow> elem \<Rightarrow> elem \<Rightarrow> elem" where
  "elem_var na nb xa va xb vb =
     fdiv_int
       (fadd (fadd (fadd (fscale va (na - 1)) (fscale (fsquare (fsub xa (elem_mu na nb xa xb))) na))
                   (fscale vb (nb - 1)))
             (fscale (fsquare (fsub xb (elem_mu na nb xa xb))) nb))
       (na + nb - 1)"

text \<open>
  Fitting on the concatenation of two sample sets: \<open>cat_batches\<close> is \<^verbatim>\<open>torch.cat\<close> of two
  batches along the sample dimension, \<open>pooled fa fb\<close> does that for every layer of \<open>fa\<close>.
  \<open>finite_batch n t\<close>: a well-formed batch of \<open>n\<close> samples with finite entries;
  \<open>same_layers\<close>: the same layer names and, per layer, the same number of neurons after
  flattening. \<open>batch_stats n t\<close> are the means and unbiased variances of the neurons of \<open>t\<close>.
\<close>

definition cat_batches :: "tensor \<Rightarrow> tensor \<Rightarrow> tensor" where
  "cat_batches ta tb =
     \<lparr>shape = (hd (shape ta) + hd (shape tb)) # tl (shape ta), elems = elems ta @ elems tb\<rparr>"

definition pooled :: "tensor dict \<Rightarrow> tensor dict \<Rightarrow> tensor dict" where
  "pooled fa fb = map (\<lambda>(l, ta). (l, cat_batches ta (the (map_of fb l)))) fa"

definition finite_batch :: "nat \<Rightarrow> tensor \<Rightarrow> bool" where
  "finite_batch n t =
     (wf_tensor t \<and> shape t \<noteq> [] \<and> hd (shape t) = n \<and> list_all (\<lambda>x. x \<noteq> None) (elems t))"

definition same_layers :: "tensor dict \<Rightarrow> tensor dict \<Rightarrow> bool" where
  "same_layers fa fb =
     (set (map fst fa) = set (map fst fb) \<and>
      list_all (\<lambda>(l, ta). map_option (\<lambda>tb. prod_list (tl (shape tb))) (map_of fb l) =
                           Some (prod_list (tl (shape ta)))) fa)"

definition batch_stats :: "nat \<Rightarrow> tensor \<Rightarrow> params" where
  "batch_stats n t = unbiased_stats n (prod_list (tl (shape t))) (map the (elems t))"

section \<open>Basic facts\<close>

lemma bindE_simps [simp]: "bindE (Inl e) f = Inl e" "bindE (Inr x) f = f x"
  by (simp_all add: bindE_def)

lemma fadd_simps [simp]:
  "fadd (Some a) (Some b) = Some (a + b)" "fadd None y = None" "fadd x None = None"
  by (simp_all add: fadd_def split: option.splits)

lemma fsub_simps [simp]:
  "fsub (Some a) (Some b) = Some (a - b)" "fsub None y = None" "fsub x None = None"
  by (simp_all add: fsub_def split: option.splits)

lemma fsquare_simps [simp]: "fsquare (Some a) = Some (a * a)" "fsquare None = None"
  by (simp_all add: fsquare_def)

lemma fscale_simps [simp]: "fscale (Some a) k = Some (a * real_of_int k)" "fscale None k = None"
  by (simp_all add: fscale_def)

lemma fdiv_int_simps [simp]:
  "k \<noteq> 0 \<Longrightarrow> fdiv_int (Some a) k = Some (a / real_of_int k)"
  "fdiv_int x 0 = None" "fdiv_int None k = None"
  by (simp_all add: fdiv_int_def split: option.splits)

lemma fdiv_int_one [simp]: "fdiv_int x 1 = x"
  by (cases x) simp_all

lemma fsum_simps [simp]: "fsum [] = Some 0" "fsum (x # xs) = fadd x (fsum xs)"
  by (simp_all add: fsum_def)

lemma fsum_Some: "fsum (map Some xs) = Some (sum_list xs)"
  by (induction xs) simp_all

lemma fadd_zero_right [simp]: "fadd x (Some 0) = x"
  by (cases x) simp_all

subsection \<open>Dictionaries\<close>

lemma map_of_dict_set: "map_of (dict_set d k v) = (map_of d)(k \<mapsto> v)"
  by (induction d) (auto simp: fun_eq_iff)

lemma dict_set_fresh: "k \<notin> fst ` set d \<Longrightarrow> dict_set d k v = d @ [(k, v)]"
  by (induction d) auto

lemma set_dict_set_subset: "set (dict_set d k v) \<subseteq> insert (k, v) (set d)"
  by (induction d) (auto split: if_splits)

lemma dict_get_mem: "distinct (map fst d) \<Longrightarrow> (k, v) \<in> set d \<Longrightarrow> dict_get d k = Inr v"
  by (simp add: dict_get_def)

lemma one_sample_params:
  assumes "shape t = Suc 0 # rest"
  shows "get_gaussian_params t =
    Inr (\<lparr>mu = elems t, var = replicate (length (elems t)) (Some 0)\<rparr>, [one_sample_warning])"
proof -
  have "torch_mean0 (Suc 0) (length (elems t)) (elems t) = elems t"
    by (simp add: torch_mean0_def column_def map_nth)
  then show ?thesis
    using assms by (simp add: get_gaussian_params_def view_batch_def zeros_like_def Let_def)
qed

lemma fit_loop_ok:
  assumes "list_all2 (\<lambda>(l, t) (l', p, w). l' = l \<and> get_gaussian_params t = Inr (p, w)) ps res"
    and "\<forall>(l, t) \<in> set ps. dict_get fd l = Inr t"
    and "distinct (map fst ps)"
    and "fst ` set ps \<inter> fst ` set d = {}"
  shows "fit_loop fd (map fst ps) d out =
    (None, d @ map (\<lambda>(l, p, w). (l, p)) res, out @ concat (map (\<lambda>(l, p, w). w) res))"
  using assms
proof (induction ps res arbitrary: d out rule: list_all2_induct)
  case Nil
  then show ?case by simp
next
  case (Cons x xs y ys)
  obtain l t where x: "x = (l, t)" by (cases x)
  obtain l' p w where y: "y = (l', p, w)" by (cases y)
  from Cons.hyps(1) x y have ll: "l' = l" and g: "get_gaussian_params t = Inr (p, w)" by auto
  from Cons.prems(1) x have dg: "dict_get fd l = Inr t" by auto
  from Cons.prems(3) x have fresh: "l \<notin> fst ` set d" by auto
  have d': "dict_set d l p = d @ [(l, p)]" using fresh by (rule dict_set_fresh)
  have "fit_loop fd (map fst xs) (d @ [(l, p)]) (out @ w) =
    (None, (d @ [(l, p)]) @ map (\<lambda>(l, p, w). (l, p)) ys, (out @ w) @ concat (map (\<lambda>(l, p, w). w) ys))"
  proof (rule Cons.IH)
    show "\<forall>(l, t)\<in>set xs. dict_get fd l = Inr t" using Cons.prems(1) by auto
    show "distinct (map fst xs)" using Cons.prems(2) by simp
    show "fst ` set xs \<inter> fst ` set (d @ [(l, p)]) = {}"
      using Cons.prems(2,3) x by auto
  qed
  then show ?case using x y ll g dg d' by simp
qed


lemma fit_loop_fits:
  assumes "fits ps res" and "\<forall>(l, t) \<in> set ps. dict_get fd l = Inr t"
    and "distinct (map fst ps)" and "fst ` set ps \<inter> fst ` set d = {}"
  shows "fit_loop fd (map fst ps) d out = (None, d @ stats_of res, out @ printed_of res)"
  using fit_loop_ok [OF assms(1) [unfolded fits_def] assms(2-4)]
  by (simp add: stats_of_def printed_of_def)

lemma fit_distribution_fits:
  assumes "distinct (map fst fd)" and "fits fd res"
  shows "fit_distribution self fd out = (None, self\<lparr>data := stats_of res\<rparr>, out @ printed_of res)"
proof -
  have "\<forall>(l, t) \<in> set fd. dict_get fd l = Inr t"
    using assms(1) by (auto simp: dict_get_mem)
  then have "fit_loop fd (map fst fd) [] out = (None, [] @ stats_of res, out @ printed_of res)"
    using assms by (intro fit_loop_fits) simp_all
  then show ?thesis by (simp add: fit_distribution_def)
qed

text \<open>
  Claim C3. When every layer's batch has exactly one sample, \<open>fit_distribution\<close> raises
  nothing; for every layer \<open>var\<close> is the vector of zeros of the length of \<open>mu\<close>,
  \<open>mu\<close> is the single sample itself (its mean), and one warning line per layer is
  printed.
\<close>

theorem fit_single_sample:
  assumes "distinct (map fst fd)"
    and "\<forall>(l, t) \<in> set fd. \<exists>rest. shape t = 1 # rest"
  shows "fit_distribution self fd out =
    (None,
     self\<lparr>data := map (\<lambda>(l, t). (l, \<lparr>mu = elems t, var = replicate (length (elems t)) (Some 0)\<rparr>)) fd\<rparr>,
     out @ replicate (length fd) one_sample_warning)"
proof -
  define res where "res = map (\<lambda>(l, t). (l, \<lparr>mu = elems t, var = replicate (length (elems t)) (Some 0)\<rparr>, [one_sample_warning])) fd"
  have "fits fd res"
    unfolding fits_def res_def list_all2_map2 list_all2_same
    using assms(2) by (auto simp: one_sample_params)
  then have "fit_distribution self fd out = (None, self\<lparr>data := stats_of res\<rparr>, out @ printed_of res)"
    using assms(1) by (intro fit_distribution_fits)
  moreover have "stats_of res = map (\<lambda>(l, t). (l, \<lparr>mu = elems t, var = replicate (length (elems t)) (Some 0)\<rparr>)) fd"
    by (simp add: stats_of_def res_def case_prod_unfold)
  moreover have "printed_of res = replicate (length fd) one_sample_warning"
    unfolding printed_of_def res_def by (induction fd) auto
  ultimately show ?thesis by simp
qed

theorem fit_single_sample_witness:
  "fit_distribution \<lparr>data = [], num_images = 1\<rparr>
     [(''conv1'', \<lparr>shape = [1, 2], elems = [Some 1, Some 3]\<rparr>), (''fc'', \<lparr>shape = [1], elems = [Some 5]\<rparr>)] [] =
   (None,
    \<lparr>data = [(''conv1'', \<lparr>mu = [Some 1, Some 3], var = [Some 0, Some 0]\<rparr>),
             (''fc'', \<lparr>mu = [Some 5], var = [Some 0]\<rparr>)], num_images = 1\<rparr>,
    [one_sample_warning, one_sample_warning])"
  using fit_single_sample [of "[(''conv1'', \<lparr>shape = [1, 2], elems = [Some 1, Some 3]\<rparr>), (''fc'', \<lparr>shape = [1], elems = [Some 5]\<rparr>)]"
      "\<lparr>data = [], num_images = 1\<rparr>" "[]"]
  by (simp add: numeral_2_eq_2)

lemma zero_sample_params: "shape t = 0 # rest \<Longrightarrow> get_gaussian_params t = Inl RuntimeError"
  by (simp add: get_gaussian_params_def view_batch_def)

lemma get_gaussian_params_error:
  "get_gaussian_params t = Inl e \<Longrightarrow> e = RuntimeError \<and> (\<exists>rest. shape t = 0 # rest) \<or> e = IndexError \<and> shape t = []"
  by (auto simp: get_gaussian_params_def view_batch_def Let_def split: list.splits if_splits)

lemma fits_Nil [simp]: "fits [] res \<longleftrightarrow> res = []"
  by (simp add: fits_def)

lemma fits_Cons:
  "fits ((l, t) # ps) res \<longleftrightarrow> (\<exists>p w rs. res = (l, p, w) # rs \<and> get_gaussian_params t = Inr (p, w) \<and> fits ps rs)"
  by (auto simp: fits_def list_all2_Cons1)

lemma stats_of_simps [simp]: "stats_of [] = []" "stats_of ((l, p, w) # rs) = (l, p) # stats_of rs"
  by (simp_all add: stats_of_def)

lemma printed_of_simps [simp]: "printed_of [] = []" "printed_of ((l, p, w) # rs) = w @ printed_of rs"
  by (simp_all add: printed_of_def)

lemma fit_loop_fails:
  assumes "\<forall>(l, t) \<in> set ps. dict_get fd l = Inr t"
    and "distinct (map fst ps)"
    and "fst ` set ps \<inter> fst ` set d = {}"
    and "(l, t) \<in> set ps" and "get_gaussian_params t = Inl e0"
  shows "\<exists>e pre l' t' post res. ps = pre @ (l', t') # post \<and> (l, t) \<in> set ((l', t') # post) \<and>
      fits pre res \<and> get_gaussian_params t' = Inl e \<and>
      fit_loop fd (map fst ps) d out = (Some e, d @ stats_of res, out @ printed_of res)"
  using assms
proof (induction ps arbitrary: d out)
  case Nil
  then show ?case by simp
next
  case (Cons x ps)
  obtain k u where x: "x = (k, u)" by (cases x)
  from Cons.prems(1) x have dg: "dict_get fd k = Inr u" by auto
  show ?case
  proof (cases "get_gaussian_params u")
    case (Inl e)
    have "x # ps = [] @ (k, u) # ps \<and> (l, t) \<in> set ((k, u) # ps) \<and> fits [] [] \<and>
        get_gaussian_params u = Inl e \<and>
        fit_loop fd (map fst (x # ps)) d out = (Some e, d @ stats_of [], out @ printed_of [])"
      using Inl x dg Cons.prems(4) by simp
    then show ?thesis by blast
  next
    case (Inr pw)
    obtain p w where pw: "pw = (p, w)" by (cases pw)
    from Cons.prems(3) x have fresh: "k \<notin> fst ` set d" by auto
    have d': "dict_set d k p = d @ [(k, p)]" using fresh by (rule dict_set_fresh)
    have mem: "(l, t) \<in> set ps" using Cons.prems(4,5) Inr x by auto
    have "\<exists>e pre l' t' post res. ps = pre @ (l', t') # post \<and> (l, t) \<in> set ((l', t') # post) \<and>
      fits pre res \<and> get_gaussian_params t' = Inl e \<and>
      fit_loop fd (map fst ps) (d @ [(k, p)]) (out @ w) =
        (Some e, (d @ [(k, p)]) @ stats_of res, (out @ w) @ printed_of res)"
    proof (rule Cons.IH)
      show "\<forall>(l, t)\<in>set ps. dict_get fd l = Inr t" using Cons.prems(1) by auto
      show "distinct (map fst ps)" using Cons.prems(2) by simp
      show "fst ` set ps \<inter> fst ` set (d @ [(k, p)]) = {}" using Cons.prems(2,3) x by auto
      show "(l, t) \<in> set ps" by (rule mem)
      show "get_gaussian_params t = Inl e0" by (rule Cons.prems(5))
    qed
    then obtain e pre l' t' post res where
      ps: "ps = pre @ (l', t') # post" and m: "(l, t) \<in> set ((l', t') # post)"
      and f: "fits pre res" and g: "get_gaussian_params t' = Inl e"
      and r: "fit_loop fd (map fst ps) (d @ [(k, p)]) (out @ w) =
        (Some e, (d @ [(k, p)]) @ stats_of res, (out @ w) @ printed_of res)"
      by blast
    have "x # ps = ((k, u) # pre) @ (l', t') # post \<and> (l, t) \<in> set ((l', t') # post) \<and>
        fits ((k, u) # pre) ((k, p, w) # res) \<and> get_gaussian_params t' = Inl e \<and>
        fit_loop fd (map fst (x # ps)) d out =
          (Some e, d @ stats_of ((k, p, w) # res), out @ printed_of ((k, p, w) # res))"
      using ps m f g r x dg Inr pw d' by (simp add: fits_Cons)
    then show ?thesis by blast
  qed
qed

lemma stats_of_keys: "fits ps res \<Longrightarrow> map fst (stats_of res) = map fst ps"
  by (induction ps arbitrary: res) (auto simp: fits_Cons)

text \<open>
  Claim C4, as the code has it. When some layer's batch has zero samples, \<open>fit_distribution\<close>
  raises. The batches split as \<open>pre @ (l', t') # post\<close>: every layer of \<open>pre\<close> is fitted,
  \<open>(l', t')\<close> is the first layer whose fit raises (the layer with zero samples or an earlier
  one), with torch's RuntimeError from \<^verbatim>\<open>view\<close> (or IndexError when that tensor has no
  dimension at all). The failing layer and every later layer get no statistics, but
  \<open>data\<close> holds exactly the statistics of the layers of \<open>pre\<close>, in their order, and their
  warnings stay printed.
\<close>

theorem fit_zero_samples:
  assumes "distinct (map fst fd)" and "(l, t) \<in> set fd" and "shape t = 0 # rest"
  shows "\<exists>e pre l' t' post res.
      fd = pre @ (l', t') # post \<and> (l, t) \<in> set ((l', t') # post) \<and>
      fits pre res \<and> map fst (stats_of res) = map fst pre \<and>
      get_gaussian_params t' = Inl e \<and>
      (e = RuntimeError \<or> e = IndexError) \<and>
      (list_all (\<lambda>(l', t'). shape t' \<noteq> []) fd \<longrightarrow> e = RuntimeError) \<and>
      fit_distribution self fd out = (Some e, self\<lparr>data := stats_of res\<rparr>, out @ printed_of res)"
proof -
  have g0: "get_gaussian_params t = Inl RuntimeError"
    using assms(3) by (rule zero_sample_params)
  have "\<forall>(l, t) \<in> set fd. dict_get fd l = Inr t"
    using assms(1) by (auto simp: dict_get_mem)
  then have "\<exists>e pre l' t' post res. fd = pre @ (l', t') # post \<and> (l, t) \<in> set ((l', t') # post) \<and>
      fits pre res \<and> get_gaussian_params t' = Inl e \<and>
      fit_loop fd (map fst fd) [] out = (Some e, [] @ stats_of res, out @ printed_of res)"
    using assms(1,2) g0 by (intro fit_loop_fails) simp_all
  then obtain e pre l' t' post res where
    fd: "fd = pre @ (l', t') # post" and m: "(l, t) \<in> set ((l', t') # post)"
    and f: "fits pre res" and g: "get_gaussian_params t' = Inl e"
    and r: "fit_loop fd (map fst fd) [] out = (Some e, [] @ stats_of res, out @ printed_of res)"
    by blast
  have k: "map fst (stats_of res) = map fst pre" using f by (rule stats_of_keys)
  from get_gaussian_params_error [OF g]
  have e: "e = RuntimeError \<or> e = IndexError \<and> shape t' = []" by blast
  then have e': "e = RuntimeError \<or> e = IndexError" by blast
  have ne: "list_all (\<lambda>(l', t'). shape t' \<noteq> []) fd \<longrightarrow> e = RuntimeError"
    using e fd by (auto simp: list_all_iff)
  have fit: "fit_distribution self fd out = (Some e, self\<lparr>data := stats_of res\<rparr>, out @ printed_of res)"
    using r by (simp add: fit_distribution_def)
  have "fd = pre @ (l', t') # post \<and> (l, t) \<in> set ((l', t') # post) \<and>
      fits pre res \<and> map fst (stats_of res) = map fst pre \<and>
      get_gaussian_params t' = Inl e \<and>
      (e = RuntimeError \<or> e = IndexError) \<and>
      (list_all (\<lambda>(l', t'). shape t' \<noteq> []) fd \<longrightarrow> e = RuntimeError) \<and>
      fit_distribution self fd out = (Some e, self\<lparr>data := stats_of res\<rparr>, out @ printed_of res)"
    using fd m f k g e' ne fit by (intro conjI)
  then show ?thesis by (intro exI)
qed

theorem fit_zero_samples_witness:
  "\<exists>e pre l' t' post res.
      [(''a'', \<lparr>shape = [2, 1], elems = [Some 1, Some 3]\<rparr>), (''b'', \<lparr>shape = [0, 1], elems = []\<rparr>)] =
        pre @ (l', t') # post \<and>
      (''b'', \<lparr>shape = [0, 1], elems = []\<rparr>) \<in> set ((l', t') # post) \<and>
      fits pre res \<and> map fst (stats_of res) = map fst pre \<and>
      get_gaussian_params t' = Inl e \<and>
      (e = RuntimeError \<or> e = IndexError) \<and>
      (list_all (\<lambda>(l', t'). shape t' \<noteq> [])
         [(''a'', \<lparr>shape = [2, 1], elems = [Some 1, Some 3]\<rparr>), (''b'', \<lparr>shape = [0, 1], elems = []\<rparr>)]
       \<longrightarrow> e = RuntimeError) \<and>
      fit_distribution new_VDNAGauss
        [(''a'', \<lparr>shape = [2, 1], elems = [Some 1, Some 3]\<rparr>), (''b'', \<lparr>shape = [0, 1], elems = []\<rparr>)] [] =
      (Some e, new_VDNAGauss\<lparr>data := stats_of res\<rparr>, [] @ printed_of res)"
proof -
  have d: "distinct (map fst [(''a'', \<lparr>shape = [2, 1], elems = [Some (1::real), Some 3]\<rparr>),
      (''b'', \<lparr>shape = [0, 1], elems = []\<rparr>)])"
    by simp
  have m: "(''b'', \<lparr>shape = [0, 1], elems = []\<rparr>) \<in>
      set [(''a'', \<lparr>shape = [2, 1], elems = [Some (1::real), Some 3]\<rparr>), (''b'', \<lparr>shape = [0, 1], elems = []\<rparr>)]"
    by simp
  have z: "shape \<lparr>shape = [0, 1], elems = ([] :: elem list)\<rparr> = 0 # [1]" by simp
  show ?thesis
    by (rule fit_zero_samples [OF d m z])
qed

text \<open>
  The claim as stated fails: the second layer has zero samples, the call raises, and the
  statistics of the first layer are in \<open>data\<close> all the same.
\<close>

theorem fit_zero_samples_keeps_earlier_layers:
  "fit_distribution new_VDNAGauss
     [(''a'', \<lparr>shape = [2, 1], elems = [Some 1, Some 3]\<rparr>), (''b'', \<lparr>shape = [0, 1], elems = []\<rparr>)] [] =
   (Some RuntimeError, \<lparr>data = [(''a'', \<lparr>mu = [Some 2], var = [Some 2]\<rparr>)], num_images = 0\<rparr>, [])"
  by (simp add: fit_distribution_def new_VDNAGauss_def dict_get_def get_gaussian_params_def
      view_batch_def torch_mean0_def torch_var0_def column_def Let_def upt_rec)

subsection \<open>Queries on a fitted distribution\<close>

lemma gaussian_params_lengths:
  "get_gaussian_params t = Inr (p, w) \<Longrightarrow> length (var p) = length (mu p)"
  by (auto simp: get_gaussian_params_def view_batch_def Let_def torch_mean0_def torch_var0_def
      zeros_like_def split: list.splits if_splits)

lemma fit_loop_invariant:
  assumes "fit_loop fd ks d out = (e, d', out')"
    and "\<forall>(k, p) \<in> set d. Q p"
    and "\<And>t p w. get_gaussian_params t = Inr (p, w) \<Longrightarrow> Q p"
  shows "\<forall>(k, p) \<in> set d'. Q p"
  using assms(1,2)
proof (induction ks arbitrary: d out)
  case Nil
  then show ?case by simp
next
  case (Cons k ks)
  show ?case
  proof (cases "dict_get fd k")
    case (Inl a)
    then show ?thesis using Cons.prems by auto
  next
    case (Inr t)
    show ?thesis
    proof (cases "get_gaussian_params t")
      case (Inl a)
      then show ?thesis using Cons.prems Inr by auto
    next
      case (Inr pw)
      obtain p w where pw: "pw = (p, w)" by (cases pw)
      have "Q p" using Inr pw assms(3) by blast
      then have "\<forall>(k, p) \<in> set (dict_set d k p). Q p"
        using Cons.prems(2) set_dict_set_subset [of d k p] by auto
      moreover have "fit_loop fd ks (dict_set d k p) (out @ w) = (e, d', out')"
        using Cons.prems(1) \<open>dict_get fd k = Inr t\<close> Inr pw by simp
      ultimately show ?thesis by (rule Cons.IH [rotated])
    qed
  qed
qed

lemma fitted_lengths:
  assumes "fit_distribution self fd out = (e, s', out')" and "map_of (data s') l = Some p"
  shows "length (var p) = length (mu p)"
proof -
  obtain d' where f: "fit_loop fd (map fst fd) [] out = (e, d', out')" and s: "s' = self\<lparr>data := d'\<rparr>"
    using assms(1) by (auto simp: fit_distribution_def split: prod.splits)
  have "\<forall>(k, p) \<in> set d'. length (var p) = length (mu p)"
    by (rule fit_loop_invariant [OF f]) (auto dest: gaussian_params_lengths)
  moreover have "(l, p) \<in> set d'" using assms(2) s by (auto dest: map_of_SomeD)
  ultimately show ?thesis by auto
qed

lemma tensor_index_negative:
  "- int (length v) \<le> i \<Longrightarrow> i < 0 \<Longrightarrow> tensor_index v i = Inr (v ! nat (int (length v) + i))"
  by (simp add: tensor_index_def)

text \<open>
  Claim C10. In a fitted distribution, for a layer with \<open>length (mu p)\<close> neurons and an
  index \<open>i\<close> with \<open>- length (mu p) \<le> i < 0\<close>, \<open>get_neuron_dist\<close> raises nothing and
  returns the \<open>mu\<close> and \<open>var\<close> of neuron \<open>length (mu p) + i\<close>.
\<close>

theorem get_neuron_dist_negative_index:
  assumes "fit_distribution self fd out = (None, s', out')"
    and "map_of (data s') layer_name = Some p"
    and "- int (length (mu p)) \<le> i" and "i < 0"
  shows "get_neuron_dist s' layer_name i =
    Inr (mu p ! nat (int (length (mu p)) + i), var p ! nat (int (length (mu p)) + i))"
proof -
  have len: "length (var p) = length (mu p)"
    using assms(1,2) by (rule fitted_lengths)
  have "dict_get (data s') layer_name = Inr p"
    using assms(2) by (simp add: dict_get_def)
  then show ?thesis
    using assms(3,4) len
    by (simp add: get_neuron_dist_def tensor_index_negative)
qed

theorem get_neuron_dist_negative_index_witness:
  "get_neuron_dist \<lparr>data = [(''a'', \<lparr>mu = [Some 2, Some 5], var = [Some 2, Some 8]\<rparr>)], num_images = 0\<rparr> ''a'' (- 1) =
     Inr (Some 5, Some 8) \<and>
   get_neuron_dist \<lparr>data = [(''a'', \<lparr>mu = [Some 2, Some 5], var = [Some 2, Some 8]\<rparr>)], num_images = 0\<rparr> ''a'' (- 2) =
     Inr (Some 2, Some 2)"
proof -
  have f: "fit_distribution new_VDNAGauss
     [(''a'', \<lparr>shape = [2, 2], elems = [Some 1, Some 3, Some 3, Some 7]\<rparr>)] [] =
   (None, \<lparr>data = [(''a'', \<lparr>mu = [Some 2, Some 5], var = [Some 2, Some 8]\<rparr>)], num_images = 0\<rparr>, [])"
    by (simp add: fit_distribution_def new_VDNAGauss_def dict_get_def get_gaussian_params_def
      view_batch_def torch_mean0_def torch_var0_def column_def Let_def upt_rec)
  show ?thesis
    using get_neuron_dist_negative_index [OF f, of "''a''" "\<lparr>mu = [Some 2, Some 5], var = [Some 2, Some 8]\<rparr>" "- 1"]
      get_neuron_dist_negative_index [OF f, of "''a''" "\<lparr>mu = [Some 2, Some 5], var = [Some 2, Some 8]\<rparr>" "- 2"]
    by simp
qed

subsection \<open>The global query\<close>

lemma all_loop_items:
  assumes "\<forall>(k, p) \<in> set ps. dict_get d k = Inr p"
  shows "all_loop d (map fst ps) mus variances =
    Inr (mus @ map (\<lambda>(k, p). mu p) ps, variances @ map (\<lambda>(k, p). var p) ps)"
  using assms by (induction ps arbitrary: mus variances) auto

lemma get_all_neurons_dists_eq:
  assumes "distinct (map fst (data s))"
  shows "get_all_neurons_dists s =
    (if data s = [] then Inl RuntimeError
     else Inr \<lparr>mu = concat (map (\<lambda>(k, p). mu p) (data s)),
               var = concat (map (\<lambda>(k, p). var p) (data s))\<rparr>)"
proof -
  have "\<forall>(k, p) \<in> set (data s). dict_get (data s) k = Inr p"
    using assms by (auto simp: dict_get_mem)
  then have "all_loop (data s) (map fst (data s)) [] [] =
    Inr ([] @ map (\<lambda>(k, p). mu p) (data s), [] @ map (\<lambda>(k, p). var p) (data s))"
    by (rule all_loop_items)
  then show ?thesis
    by (cases "data s") (simp_all add: get_all_neurons_dists_def torch_cat_def)
qed

lemma fits_or_fails:
  "(\<exists>res. fits ps res) \<or> (\<exists>l t e. (l, t) \<in> set ps \<and> get_gaussian_params t = Inl e)"
proof (induction ps)
  case Nil
  then show ?case by simp
next
  case (Cons x ps)
  obtain k u where x: "x = (k, u)" by (cases x)
  show ?case
  proof (cases "get_gaussian_params u")
    case (Inl e)
    then show ?thesis using x by auto
  next
    case (Inr pw)
    obtain p w where "pw = (p, w)" by (cases pw)
    with Inr Cons.IH x show ?thesis by (auto simp: fits_Cons)
  qed
qed

lemma fit_distribution_None:
  assumes "distinct (map fst fd)" and "fit_distribution self fd out = (None, s', out')"
  shows "\<exists>res. fits fd res \<and> s' = self\<lparr>data := stats_of res\<rparr> \<and> out' = out @ printed_of res"
proof -
  have lk: "\<forall>(l, t) \<in> set fd. dict_get fd l = Inr t"
    using assms(1) by (auto simp: dict_get_mem)
  from fits_or_fails [of fd] show ?thesis
  proof
    assume "\<exists>res. fits fd res"
    then obtain res where r: "fits fd res" by blast
    from fit_distribution_fits [OF assms(1) r, of self out] assms(2) r show ?thesis by auto
  next
    assume "\<exists>l t e. (l, t) \<in> set fd \<and> get_gaussian_params t = Inl e"
    then obtain l t e where m: "(l, t) \<in> set fd" and g: "get_gaussian_params t = Inl e" by blast
    have "\<exists>e pre l' t' post res. fd = pre @ (l', t') # post \<and> (l, t) \<in> set ((l', t') # post) \<and>
      fits pre res \<and> get_gaussian_params t' = Inl e \<and>
      fit_loop fd (map fst fd) [] out = (Some e, [] @ stats_of res, out @ printed_of res)"
      using lk assms(1) m g by (intro fit_loop_fails) simp_all
    then have "fst (fit_distribution self fd out) \<noteq> None"
      by (auto simp: fit_distribution_def)
    with assms(2) show ?thesis by simp
  qed
qed

lemma stats_of_mu: "map (\<lambda>(k, p). mu p) (stats_of res) = map (\<lambda>(l, p, w). mu p) res"
  by (induction res) auto

lemma stats_of_var: "map (\<lambda>(k, p). var p) (stats_of res) = map (\<lambda>(l, p, w). var p) res"
  by (induction res) auto

lemma load_loop_items:
  assumes "list_all2 (loaded_from ar) ls lps"
    and "distinct ls" and "set ls \<inter> fst ` set d = {}"
  shows "load_loop ar ls d = Inr (d @ lps)"
  using assms
proof (induction ls lps arbitrary: d rule: list_all2_induct)
  case Nil
  then show ?case by simp
next
  case (Cons l ls y lps)
  obtain l' m v where y: "y = (l', \<lparr>mu = m, var = v\<rparr>)" by (cases y, cases "snd y") auto
  from Cons.hyps(1) y have ll: "l' = l" and m: "np_get ar (''mu-'' @ l) = Inr m"
    and v: "np_get ar (''var-'' @ l) = Inr v" by (auto simp: loaded_from_def)
  have fresh: "l \<notin> fst ` set d" using Cons.prems(2) by auto
  have "load_loop ar ls (d @ [(l, \<lparr>mu = m, var = v\<rparr>)]) = Inr ((d @ [(l, \<lparr>mu = m, var = v\<rparr>)]) @ lps)"
    using Cons.prems by (intro Cons.IH) auto
  then show ?case using y ll m v dict_set_fresh [OF fresh] by simp
qed

lemma load_loop_Inr:
  assumes "load_loop ar ls d = Inr d'"
  shows "\<exists>lps. list_all2 (loaded_from ar) ls lps"
  using assms
proof (induction ls arbitrary: d)
  case Nil
  then show ?case by simp
next
  case (Cons l ls)
  from Cons.prems obtain m v where m: "np_get ar (''mu-'' @ l) = Inr m"
    and v: "np_get ar (''var-'' @ l) = Inr v"
    and r: "load_loop ar ls (dict_set d l \<lparr>mu = m, var = v\<rparr>) = Inr d'"
    by (auto simp: bindE_def split: sum.splits)
  from Cons.IH [OF r] obtain lps where "list_all2 (loaded_from ar) ls lps" by blast
  then have "list_all2 (loaded_from ar) (l # ls) ((l, \<lparr>mu = m, var = v\<rparr>) # lps)"
    using m v by (simp add: loaded_from_def)
  then show ?case by blast
qed

lemma loaded_keys: "list_all2 (loaded_from ar) ls lps \<Longrightarrow> map fst lps = ls"
  by (induction ls lps rule: list_all2_induct) (auto simp: loaded_from_def)

lemma load_dist_data_Inr:
  assumes "distinct nl" and "load_dist_data npz nl self fs file_path = Inr s'"
  shows "\<exists>ar lps. fs (npz file_path) = Some ar \<and> list_all2 (loaded_from ar) nl lps \<and>
    s' = self\<lparr>data := lps\<rparr>"
proof -
  from assms(2) obtain ar d where ar: "fs (npz file_path) = Some ar"
    and l: "load_loop ar nl [] = Inr d" and s: "s' = self\<lparr>data := d\<rparr>"
    by (auto simp: load_dist_data_def bindE_def split: option.splits sum.splits)
  from load_loop_Inr [OF l] obtain lps where lps: "list_all2 (loaded_from ar) nl lps" by blast
  have "load_loop ar nl [] = Inr ([] @ lps)"
    using lps assms(1) by (intro load_loop_items) simp_all
  with l have "d = lps" by simp
  with ar lps s show ?thesis by blast
qed

text \<open>
  Claim C9, for a distribution with at least one layer. After a successful fit of a batch
  dictionary \<open>fd\<close>, the global query returns the per-layer \<open>mu\<close> vectors (and the \<open>var\<close>
  vectors) concatenated in the order of the keys of \<open>fd\<close>; after a successful load with
  the layer names \<open>nl\<close>, in the order of \<open>nl\<close>. The query is a function of the object,
  so two calls return the same vectors.
\<close>

theorem get_all_neurons_dists_insertion_order:
  "(distinct (map fst fd) \<and> fd \<noteq> [] \<and> fit_distribution self fd out = (None, s', out') \<longrightarrow>
      (\<exists>res. fits fd res \<and>
         get_all_neurons_dists s' =
           Inr \<lparr>mu = concat (map (\<lambda>(l, p, w). mu p) res), var = concat (map (\<lambda>(l, p, w). var p) res)\<rparr>)) \<and>
   (distinct nl \<and> nl \<noteq> [] \<and> load_dist_data npz nl self fs file_path = Inr s'' \<longrightarrow>
      (\<exists>ar lps. fs (npz file_path) = Some ar \<and> list_all2 (loaded_from ar) nl lps \<and>
         get_all_neurons_dists s'' =
           Inr \<lparr>mu = concat (map (\<lambda>(l, p). mu p) lps), var = concat (map (\<lambda>(l, p). var p) lps)\<rparr>))"
proof (intro conjI impI)
  assume a: "distinct (map fst fd) \<and> fd \<noteq> [] \<and> fit_distribution self fd out = (None, s', out')"
  then obtain res where r: "fits fd res" and s: "s' = self\<lparr>data := stats_of res\<rparr>"
    using fit_distribution_None [of fd self out s' out'] by blast
  have k: "map fst (stats_of res) = map fst fd" using r by (rule stats_of_keys)
  have d: "distinct (map fst (data s'))" using a s k by simp
  have ne: "data s' \<noteq> []" using a s k by auto
  have "get_all_neurons_dists s' =
           Inr \<lparr>mu = concat (map (\<lambda>(l, p, w). mu p) res), var = concat (map (\<lambda>(l, p, w). var p) res)\<rparr>"
    using get_all_neurons_dists_eq [OF d] ne s by (simp add: stats_of_mu stats_of_var)
  with r show "\<exists>res. fits fd res \<and>
         get_all_neurons_dists s' =
           Inr \<lparr>mu = concat (map (\<lambda>(l, p, w). mu p) res), var = concat (map (\<lambda>(l, p, w). var p) res)\<rparr>"
    by blast
next
  assume a: "distinct nl \<and> nl \<noteq> [] \<and> load_dist_data npz nl self fs file_path = Inr s''"
  then obtain ar lps where ar: "fs (npz file_path) = Some ar"
    and l: "list_all2 (loaded_from ar) nl lps" and s: "s'' = self\<lparr>data := lps\<rparr>"
    using load_dist_data_Inr [of nl npz self fs file_path s''] by blast
  have k: "map fst lps = nl" using l by (rule loaded_keys)
  have d: "distinct (map fst (data s''))" using a s k by simp
  have ne: "data s'' \<noteq> []" using a s k by auto
  have "get_all_neurons_dists s'' =
           Inr \<lparr>mu = concat (map (\<lambda>(l, p). mu p) lps), var = concat (map (\<lambda>(l, p). var p) lps)\<rparr>"
    using get_all_neurons_dists_eq [OF d] ne s by simp
  with ar l show "\<exists>ar lps. fs (npz file_path) = Some ar \<and> list_all2 (loaded_from ar) nl lps \<and>
         get_all_neurons_dists s'' =
           Inr \<lparr>mu = concat (map (\<lambda>(l, p). mu p) lps), var = concat (map (\<lambda>(l, p). var p) lps)\<rparr>"
    by blast
qed

theorem get_all_neurons_dists_insertion_order_witness:
  "(\<exists>res. fits [(''b'', \<lparr>shape = [1, 2], elems = [Some 1, Some 3]\<rparr>), (''a'', \<lparr>shape = [1], elems = [Some 5]\<rparr>)] res \<and>
      get_all_neurons_dists
        \<lparr>data = [(''b'', \<lparr>mu = [Some 1, Some 3], var = [Some 0, Some 0]\<rparr>),
                 (''a'', \<lparr>mu = [Some 5], var = [Some 0]\<rparr>)], num_images = 0\<rparr> =
      Inr \<lparr>mu = concat (map (\<lambda>(l, p, w). mu p) res), var = concat (map (\<lambda>(l, p, w). var p) res)\<rparr>) \<and>
   (\<exists>ar lps.
      ((\<lambda>p. None)(''d.npz'' := Some [(''mu-b'', NpArray [Some 1, Some 3]), (''var-b'', NpArray [Some 0, Some 0]),
                                     (''mu-a'', NpArray [Some 5]), (''var-a'', NpArray [Some 0])])) ''d.npz'' = Some ar \<and>
      list_all2 (loaded_from ar) [''b'', ''a''] lps \<and>
      get_all_neurons_dists
        \<lparr>data = [(''b'', \<lparr>mu = [Some 1, Some 3], var = [Some 0, Some 0]\<rparr>),
                 (''a'', \<lparr>mu = [Some 5], var = [Some 0]\<rparr>)], num_images = 0\<rparr> =
      Inr \<lparr>mu = concat (map (\<lambda>(l, p). mu p) lps), var = concat (map (\<lambda>(l, p). var p) lps)\<rparr>)"
proof -
  have f: "fit_distribution new_VDNAGauss
      [(''b'', \<lparr>shape = [1, 2], elems = [Some 1, Some 3]\<rparr>), (''a'', \<lparr>shape = [1], elems = [Some 5]\<rparr>)] [] =
    (None, \<lparr>data = [(''b'', \<lparr>mu = [Some 1, Some 3], var = [Some 0, Some 0]\<rparr>),
                    (''a'', \<lparr>mu = [Some 5], var = [Some 0]\<rparr>)], num_images = 0\<rparr>,
     [one_sample_warning, one_sample_warning])"
    by (simp add: fit_distribution_def new_VDNAGauss_def dict_get_def get_gaussian_params_def
      view_batch_def torch_mean0_def zeros_like_def column_def Let_def upt_rec)
  have l: "load_dist_data (\<lambda>p. p) [''b'', ''a''] new_VDNAGauss
      ((\<lambda>p. None)(''d.npz'' := Some [(''mu-b'', NpArray [Some 1, Some 3]), (''var-b'', NpArray [Some 0, Some 0]),
                                     (''mu-a'', NpArray [Some 5]), (''var-a'', NpArray [Some 0])])) ''d.npz'' =
    Inr \<lparr>data = [(''b'', \<lparr>mu = [Some 1, Some 3], var = [Some 0, Some 0]\<rparr>),
                 (''a'', \<lparr>mu = [Some 5], var = [Some 0]\<rparr>)], num_images = 0\<rparr>"
    by (simp add: load_dist_data_def new_VDNAGauss_def np_get_def)
  show ?thesis
    using get_all_neurons_dists_insertion_order [where
        fd = "[(''b'', \<lparr>shape = [1, 2], elems = [Some 1, Some 3]\<rparr>), (''a'', \<lparr>shape = [1], elems = [Some 5]\<rparr>)]"
        and self = new_VDNAGauss and out = "[]" and nl = "[''b'', ''a'']" and npz = "\<lambda>p. p"
        and file_path = "''d.npz''"
        and s' = "\<lparr>data = [(''b'', \<lparr>mu = [Some 1, Some 3], var = [Some 0, Some 0]\<rparr>),
                 (''a'', \<lparr>mu = [Some 5], var = [Some 0]\<rparr>)], num_images = 0\<rparr>"
        and s'' = "\<lparr>data = [(''b'', \<lparr>mu = [Some 1, Some 3], var = [Some 0, Some 0]\<rparr>),
                 (''a'', \<lparr>mu = [Some 5], var = [Some 0]\<rparr>)], num_images = 0\<rparr>"
        and out' = "[one_sample_warning, one_sample_warning]"
        and fs = "(\<lambda>p. None)(''d.npz'' := Some [(''mu-b'', NpArray [Some 1, Some 3]), (''var-b'', NpArray [Some 0, Some 0]),
                                     (''mu-a'', NpArray [Some 5]), (''var-a'', NpArray [Some 0])])"] f l
    by simp
qed

text \<open>
  The claim as stated fails for the distribution fitted on a dictionary with no layer:
  \<^verbatim>\<open>torch.cat\<close> refuses the empty list.
\<close>

theorem get_all_neurons_dists_empty:
  "fit_distribution new_VDNAGauss [] [] = (None, new_VDNAGauss, []) \<and>
   get_all_neurons_dists new_VDNAGauss = Inl RuntimeError"
  by (simp add: fit_distribution_def new_VDNAGauss_def get_all_neurons_dists_def torch_cat_def)

subsection \<open>Merging two distributions of the same schema\<close>

lemma merged_from_iff:
  "merged_from a b lpa lpr \<longleftrightarrow>
     fst lpr = fst lpa \<and>
     (\<exists>pb. map_of (data b) (fst lpa) = Some pb \<and> length (mu pb) = length (mu (snd lpa)) \<and>
           snd lpr = merge_layer (num_images a) (num_images b) (snd lpa) pb)"
  unfolding merged_from_def by (cases "map_of (data b) (fst lpa)") simp_all

lemma bcast_same_length: "length xs = length ys \<Longrightarrow> bcast f xs ys = Inr (map2 f xs ys)"
  by (simp add: bcast_def)

lemma bcast_error: "bcast f xs ys = Inl e \<Longrightarrow> e = RuntimeError"
  by (auto simp: bcast_def split: if_splits)

lemma length_tscale [simp]: "length (tscale v k) = length v"
  by (simp add: tscale_def)

lemma length_tdiv [simp]: "length (tdiv v k) = length v"
  by (simp add: tdiv_def)

lemma length_tsquare [simp]: "length (tsquare v) = length v"
  by (simp add: tsquare_def)

lemma add_layer_same_length:
  assumes "length (mu pb) = length (mu pa)" and "length (var pa) = length (mu pa)"
    and "length (var pb) = length (mu pb)"
  shows "add_mu pa na pb nb = Inr (mu (merge_layer na nb pa pb))"
    and "add_var pa na pb nb (mu (merge_layer na nb pa pb)) = Inr (var (merge_layer na nb pa pb))"
  using assms by (simp_all add: add_mu_def add_var_def merge_layer_def Let_def bcast_same_length)

lemma add_mu_error: "add_mu pa na pb nb = Inl e \<Longrightarrow> e = RuntimeError"
  by (auto simp: add_mu_def bindE_def split: sum.splits dest: bcast_error)

lemma add_var_error: "add_var pa na pb nb m = Inl e \<Longrightarrow> e = RuntimeError"
  by (auto simp: add_var_def bindE_def split: sum.splits dest: bcast_error)

lemma dict_get_error: "dict_get d k = Inl e \<Longrightarrow> e = KeyError"
  by (auto simp: dict_get_def split: option.splits)

lemma add_loop_error:
  "add_loop a b ks nd = Inl e \<Longrightarrow> e = KeyError \<or> e = RuntimeError"
proof (induction ks arbitrary: nd)
  case Nil
  then show ?case by simp
next
  case (Cons k ks)
  then show ?case
    by (auto simp: bindE_def split: sum.splits
        dest: dict_get_error add_mu_error add_var_error)
qed

lemma params_eta: "\<lparr>mu = mu q, var = var q\<rparr> = q"
  by simp

lemma add_loop_merged:
  assumes "list_all2 (merged_from a b) ps res"
    and "\<forall>(l, p) \<in> set ps. dict_get (data a) l = Inr p \<and> length (var p) = length (mu p)"
    and "\<forall>(l, p) \<in> set (data b). length (var p) = length (mu p)"
    and "distinct (map fst ps)" and "fst ` set ps \<inter> fst ` set nd = {}"
  shows "add_loop a b (map fst ps) nd = Inr (nd @ res)"
  using assms
proof (induction ps res arbitrary: nd rule: list_all2_induct)
  case Nil
  then show ?case by simp
next
  case (Cons x ps y res)
  obtain l pa where x: "x = (l, pa)" by (cases x)
  from Cons.hyps(1) x obtain pb where y: "y = (l, merge_layer (num_images a) (num_images b) pa pb)"
    and b: "map_of (data b) l = Some pb" and len: "length (mu pb) = length (mu pa)"
    by (cases y) (auto simp: merged_from_iff)
  from Cons.prems(1) x have ga: "dict_get (data a) l = Inr pa" and wa: "length (var pa) = length (mu pa)"
    by auto
  from b have gb: "dict_get (data b) l = Inr pb" by (simp add: dict_get_def)
  from b Cons.prems(2) have wb: "length (var pb) = length (mu pb)" by (auto dest: map_of_SomeD)
  have fresh: "l \<notin> fst ` set nd" using Cons.prems(4) x by auto
  have rec: "add_loop a b (map fst ps) (nd @ [y]) = Inr ((nd @ [y]) @ res)"
    using Cons.prems x y by (intro Cons.IH) auto
  show ?case
    using x y ga gb rec dict_set_fresh [OF fresh] add_layer_same_length [OF len wa wb]
    by (simp add: params_eta)
qed

lemma list_all2_exists: "(\<forall>x \<in> set xs. \<exists>y. R x y) \<Longrightarrow> \<exists>ys. list_all2 R xs ys"
  by (induction xs) (auto simp: list_all2_Cons1)

lemma same_schema_lookup:
  assumes "same_schema a b" and "distinct (map fst (data a))" and "(l, pa) \<in> set (data a)"
  shows "\<exists>pb. map_of (data b) l = Some pb \<and> length (mu pb) = length (mu pa)"
proof -
  have "map_of (data a) l = Some pa" using assms(2,3) by simp
  moreover have "map_option (\<lambda>p. length (mu p)) (map_of (data a) l) =
      map_option (\<lambda>p. length (mu p)) (map_of (data b) l)"
    using assms(1,3) by (force simp: same_schema_def list_all_iff)
  ultimately show ?thesis by (cases "map_of (data b) l") auto
qed

lemma vdna_add_same_schema:
  assumes "same_schema a b" and "wf_vdna a" and "wf_vdna b"
  shows "\<exists>res. list_all2 (merged_from a b) (data a) res \<and>
    vdna_add a b = Inr \<lparr>data = res, num_images = num_images a + num_images b\<rparr>"
proof -
  have d: "distinct (map fst (data a))" using assms(2) by (simp add: wf_vdna_def)
  have "\<forall>x \<in> set (data a). \<exists>y. merged_from a b x y"
  proof
    fix x assume x: "x \<in> set (data a)"
    obtain l pa where lp: "x = (l, pa)" by (cases x)
    from same_schema_lookup [OF assms(1) d] x lp obtain pb where
      "map_of (data b) l = Some pb" "length (mu pb) = length (mu pa)" by blast
    then have "merged_from a b x (l, merge_layer (num_images a) (num_images b) pa pb)"
      using lp by (simp add: merged_from_iff)
    then show "\<exists>y. merged_from a b x y" ..
  qed
  then obtain res where res: "list_all2 (merged_from a b) (data a) res"
    using list_all2_exists by blast
  have "add_loop a b (map fst (data a)) [] = Inr ([] @ res)"
  proof (rule add_loop_merged [OF res])
    show "\<forall>(l, p)\<in>set (data a). dict_get (data a) l = Inr p \<and> length (var p) = length (mu p)"
      using assms(2) by (auto simp: wf_vdna_def list_all_iff dict_get_mem)
    show "\<forall>(l, p)\<in>set (data b). length (var p) = length (mu p)"
      using assms(3) by (auto simp: wf_vdna_def list_all_iff)
  qed (use d in simp_all)
  then have "vdna_add a b = Inr \<lparr>data = res, num_images = num_images a + num_images b\<rparr>"
    using assms(1) by (simp add: vdna_add_def common_before_add_def new_VDNAGauss_def)
  with res show ?thesis by blast
qed

lemma merged_keys: "list_all2 (merged_from a b) ps res \<Longrightarrow> map fst res = map fst ps"
  by (induction ps res rule: list_all2_induct) (auto simp: merged_from_iff)

lemma merged_mem:
  assumes "list_all2 (merged_from a b) ps res" and "(l, pr) \<in> set res"
  shows "\<exists>pa pb. (l, pa) \<in> set ps \<and> map_of (data b) l = Some pb \<and>
      length (mu pb) = length (mu pa) \<and> pr = merge_layer (num_images a) (num_images b) pa pb"
  using assms by (induction ps res rule: list_all2_induct) (auto simp: merged_from_iff)

text \<open>
  Claim C5. With the schema check of the base class modelled from the spec, \<open>vdna_add\<close>
  fails with SchemaMismatchError exactly when the operands do not have the identical set
  of layer names or differ in the neuron count of some layer; it returns a distribution
  only when layer sets and neuron counts are identical, and does return one then when
  both operands keep as many variances as means per layer.
\<close>

theorem vdna_add_schema_mismatch:
  "(vdna_add a b = Inl SchemaMismatchError \<longleftrightarrow>
      \<not> (set (map fst (data a)) = set (map fst (data b)) \<and>
         (\<forall>l \<in> set (map fst (data a)).
            map_option (\<lambda>p. length (mu p)) (map_of (data a) l) =
            map_option (\<lambda>p. length (mu p)) (map_of (data b) l)))) \<and>
   (\<forall>r. vdna_add a b = Inr r \<longrightarrow>
      set (map fst (data a)) = set (map fst (data b)) \<and>
      (\<forall>l \<in> set (map fst (data a)).
         map_option (\<lambda>p. length (mu p)) (map_of (data a) l) =
         map_option (\<lambda>p. length (mu p)) (map_of (data b) l))) \<and>
   (wf_vdna a \<and> wf_vdna b \<and> set (map fst (data a)) = set (map fst (data b)) \<and>
      (\<forall>l \<in> set (map fst (data a)).
         map_option (\<lambda>p. length (mu p)) (map_of (data a) l) =
         map_option (\<lambda>p. length (mu p)) (map_of (data b) l)) \<longrightarrow>
      (\<exists>r. vdna_add a b = Inr r))"
proof -
  have ss: "same_schema a b \<longleftrightarrow>
      set (map fst (data a)) = set (map fst (data b)) \<and>
      (\<forall>l \<in> set (map fst (data a)).
         map_option (\<lambda>p. length (mu p)) (map_of (data a) l) =
         map_option (\<lambda>p. length (mu p)) (map_of (data b) l))"
    by (simp add: same_schema_def list_all_iff)
  have 1: "vdna_add a b = Inl SchemaMismatchError \<longleftrightarrow> \<not> same_schema a b"
  proof
    assume "vdna_add a b = Inl SchemaMismatchError"
    show "\<not> same_schema a b"
    proof
      assume s: "same_schema a b"
      then have "add_loop a b (map fst (data a)) [] = Inl SchemaMismatchError"
        using \<open>vdna_add a b = Inl SchemaMismatchError\<close>
        by (auto simp: vdna_add_def common_before_add_def new_VDNAGauss_def bindE_def
            split: sum.splits)
      from add_loop_error [OF this] show False by simp
    qed
  next
    assume "\<not> same_schema a b"
    then show "vdna_add a b = Inl SchemaMismatchError"
      by (simp add: vdna_add_def common_before_add_def)
  qed
  have 2: "\<forall>r. vdna_add a b = Inr r \<longrightarrow> same_schema a b"
    by (auto simp: vdna_add_def common_before_add_def split: if_splits)
  have 3: "wf_vdna a \<and> wf_vdna b \<and> same_schema a b \<longrightarrow> (\<exists>r. vdna_add a b = Inr r)"
    using vdna_add_same_schema [of a b] by blast
  from 1 2 3 show ?thesis unfolding ss by blast
qed

theorem vdna_add_schema_mismatch_witness:
  "vdna_add \<lparr>data = [(''L'', \<lparr>mu = [Some 1], var = [Some 0]\<rparr>)], num_images = 2\<rparr>
            \<lparr>data = [(''M'', \<lparr>mu = [Some 1], var = [Some 0]\<rparr>)], num_images = 2\<rparr> = Inl SchemaMismatchError \<and>
   vdna_add \<lparr>data = [(''L'', \<lparr>mu = [Some 1], var = [Some 0]\<rparr>)], num_images = 2\<rparr>
            \<lparr>data = [(''L'', \<lparr>mu = [Some 1, Some 2], var = [Some 0, Some 0]\<rparr>)], num_images = 2\<rparr> = Inl SchemaMismatchError \<and>
   (\<exists>r. vdna_add \<lparr>data = [(''L'', \<lparr>mu = [Some 1], var = [Some 0]\<rparr>)], num_images = 2\<rparr>
            \<lparr>data = [(''L'', \<lparr>mu = [Some 3], var = [Some 0]\<rparr>)], num_images = 2\<rparr> = Inr r)"
  using vdna_add_schema_mismatch [of "\<lparr>data = [(''L'', \<lparr>mu = [Some 1], var = [Some 0]\<rparr>)], num_images = 2\<rparr>"
            "\<lparr>data = [(''M'', \<lparr>mu = [Some 1], var = [Some 0]\<rparr>)], num_images = 2\<rparr>"]
    vdna_add_schema_mismatch [of "\<lparr>data = [(''L'', \<lparr>mu = [Some 1], var = [Some 0]\<rparr>)], num_images = 2\<rparr>"
            "\<lparr>data = [(''L'', \<lparr>mu = [Some 1, Some 2], var = [Some 0, Some 0]\<rparr>)], num_images = 2\<rparr>"]
    vdna_add_schema_mismatch [of "\<lparr>data = [(''L'', \<lparr>mu = [Some 1], var = [Some 0]\<rparr>)], num_images = 2\<rparr>"
            "\<lparr>data = [(''L'', \<lparr>mu = [Some 3], var = [Some 0]\<rparr>)], num_images = 2\<rparr>"]
  by (simp add: wf_vdna_def)

lemma tdiv_zero: "x \<in> set (tdiv v 0) \<Longrightarrow> x = None"
  by (auto simp: tdiv_def)

text \<open>
  Claim C6, as the code has it. The code has no guard for \<open>n_a + n_b - 1 = 0\<close>: for
  operands of the same schema \<open>vdna_add\<close> raises nothing, performs the division and returns
  a distribution with the layers of the first operand, sample count 1 and every entry of
  every \<open>var\<close> non-finite.
\<close>

theorem vdna_add_degenerate:
  assumes "same_schema a b" and "wf_vdna a" and "wf_vdna b"
    and "num_images a + num_images b - 1 = 0"
  shows "\<exists>r. vdna_add a b = Inr r \<and> num_images r = 1 \<and> map fst (data r) = map fst (data a) \<and>
    (\<forall>(l, p) \<in> set (data r). \<forall>x \<in> set (var p). x = None)"
proof -
  from vdna_add_same_schema [OF assms(1-3)] obtain res where
    res: "list_all2 (merged_from a b) (data a) res"
    and r: "vdna_add a b = Inr \<lparr>data = res, num_images = num_images a + num_images b\<rparr>"
    by blast
  have "\<forall>(l, p) \<in> set res. \<forall>x \<in> set (var p). x = None"
  proof (clarify)
    fix l p x assume "(l, p) \<in> set res" and x: "x \<in> set (var p)"
    from merged_mem [OF res this(1)] obtain pa pb where
      "p = merge_layer (num_images a) (num_images b) pa pb" by blast
    with x assms(4) show "x = None"
      by (auto simp: merge_layer_def Let_def dest: tdiv_zero)
  qed
  moreover have "map fst res = map fst (data a)" using res by (rule merged_keys)
  moreover have "num_images a + num_images b = 1" using assms(4) by simp
  ultimately show ?thesis using r by simp
qed

theorem vdna_add_degenerate_witness:
  "\<exists>r. vdna_add \<lparr>data = [(''L'', \<lparr>mu = [Some 1], var = [Some 0]\<rparr>)], num_images = 1\<rparr>
            \<lparr>data = [(''L'', \<lparr>mu = [Some 3], var = [Some 0]\<rparr>)], num_images = 0\<rparr> = Inr r \<and>
        num_images r = 1 \<and> map fst (data r) = [''L''] \<and> list_all (\<lambda>(l, p). list_all (\<lambda>x. x = None) (var p)) (data r)"
  using vdna_add_degenerate [of "\<lparr>data = [(''L'', \<lparr>mu = [Some 1], var = [Some 0]\<rparr>)], num_images = 1\<rparr>"
            "\<lparr>data = [(''L'', \<lparr>mu = [Some 3], var = [Some 0]\<rparr>)], num_images = 0\<rparr>"]
  by (simp add: wf_vdna_def same_schema_def list_all_iff)

text \<open>
  The claim as stated fails: with sample counts 1 and 0 the denominator is zero, no error
  is raised, and the variance returned is non-finite.
\<close>

theorem vdna_add_divides_by_zero:
  "vdna_add \<lparr>data = [(''L'', \<lparr>mu = [Some 1], var = [Some 0]\<rparr>)], num_images = 1\<rparr>
            \<lparr>data = [(''L'', \<lparr>mu = [Some 3], var = [Some 0]\<rparr>)], num_images = 0\<rparr> =
   Inr \<lparr>data = [(''L'', \<lparr>mu = [Some 1], var = [None]\<rparr>)], num_images = 1\<rparr>"
  by (simp add: vdna_add_def common_before_add_def same_schema_def new_VDNAGauss_def dict_get_def
      add_mu_def add_var_def bcast_def tscale_def tdiv_def tsquare_def)

subsection \<open>Fitting a batch of finite values\<close>

lemma batch_index: "i < n \<Longrightarrow> j < m \<Longrightarrow> i * m + j < n * (m::nat)"
proof -
  assume "i < n" "j < m"
  then have "i * m + j < i * m + m" by simp
  also have "\<dots> = Suc i * m" by simp
  also have "\<dots> \<le> n * m" using \<open>i < n\<close> by (intro mult_le_mono1) simp
  finally show ?thesis .
qed

lemma column_finite:
  assumes "length xs = n * m" and "j < m"
  shows "column n m (map Some xs) j = map Some (neuron_samples n m xs j)"
  using assms by (simp add: column_def neuron_samples_def batch_index)

lemma fsum_map_Some: "fsum (map (\<lambda>z. Some (f z)) zs) = Some (sum_list (map f zs))"
  by (induction zs) simp_all

lemma length_neuron_samples [simp]: "length (neuron_samples n m xs j) = n"
  by (simp add: neuron_samples_def)

lemma torch_mean0_finite:
  assumes "length xs = n * m" and "0 < n"
  shows "torch_mean0 n m (map Some xs) = map (\<lambda>j. Some (sample_mean (neuron_samples n m xs j))) [0..<m]"
  unfolding torch_mean0_def
proof (rule map_cong [OF refl])
  fix j assume "j \<in> set [0..<m]"
  then have j: "j < m" by simp
  show "fdiv_int (fsum (column n m (map Some xs) j)) (int n) = Some (sample_mean (neuron_samples n m xs j))"
    using assms(2) by (simp add: column_finite [OF assms(1) j] fsum_Some sample_mean_def)
qed

lemma torch_var0_finite:
  assumes "length xs = n * m" and "1 < n"
  shows "torch_var0 n m (map Some xs) = map (\<lambda>j. Some (sample_variance (neuron_samples n m xs j))) [0..<m]"
  unfolding torch_var0_def
proof (rule map_cong [OF refl])
  fix j assume "j \<in> set [0..<m]"
  then have j: "j < m" by simp
  have n1: "int n - 1 \<noteq> 0" using assms(2) by simp
  have r: "real_of_int (int n - 1) = real n - 1" by simp
  show "(let c = column n m (map Some xs) j; avg = fdiv_int (fsum c) (int n)
         in fdiv_int (fsum (map (\<lambda>x. fsquare (fsub x avg)) c)) (int n - 1)) =
        Some (sample_variance (neuron_samples n m xs j))"
    using assms(2) n1
    by (simp add: column_finite [OF assms(1) j] fsum_Some Let_def comp_def fsum_map_Some
        sample_variance_def sample_mean_def power2_eq_square r del: of_int_diff)
qed

lemma get_gaussian_params_finite:
  assumes "shape t = n # rest" and "1 < n" and "wf_tensor t" and "elems t = map Some xs"
  shows "get_gaussian_params t = Inr (unbiased_stats n (prod_list rest) xs, [])"
proof -
  have len: "length xs = n * prod_list rest"
    using assms(1,3,4) by (simp add: wf_tensor_def)
  then have m: "length (elems t) div n = prod_list rest"
    using assms(2,4) by simp
  show ?thesis
    using assms(1,2,4) m torch_mean0_finite [OF len] torch_var0_finite [OF len]
    by (simp add: get_gaussian_params_def view_batch_def unbiased_stats_def Let_def)
qed

lemma fits_lookup:
  assumes "fits ps res" and "distinct (map fst ps)" and "(l, t) \<in> set ps"
  shows "\<exists>p w. get_gaussian_params t = Inr (p, w) \<and> map_of (stats_of res) l = Some p"
  using assms
proof (induction ps arbitrary: res)
  case Nil
  then show ?case by simp
next
  case (Cons x ps)
  obtain k u where x: "x = (k, u)" by (cases x)
  from Cons.prems(1) x obtain p w rs where res: "res = (k, p, w) # rs"
    and g: "get_gaussian_params u = Inr (p, w)" and f: "fits ps rs"
    by (auto simp: fits_Cons)
  show ?case
  proof (cases "(l, t) = (k, u)")
    case True
    then show ?thesis using res g by simp
  next
    case False
    then have m: "(l, t) \<in> set ps" using Cons.prems(3) x by auto
    then have "l \<noteq> k" using Cons.prems(2) x by force
    moreover from Cons.IH [OF f _ m] Cons.prems(2)
    obtain p' w' where "get_gaussian_params t = Inr (p', w')" "map_of (stats_of rs) l = Some p'"
      by auto
    ultimately show ?thesis using res by simp
  qed
qed

text \<open>
  Claim C2. In a successful fit, a layer whose batch has \<open>n > 1\<close> samples (shape \<open>n # rest\<close>,
  all entries finite) gets, for every neuron \<open>j\<close> of the \<open>prod_list rest\<close> neurons obtained by
  flattening the other dimensions, \<open>mu\<close> equal to the arithmetic mean of the neuron's \<open>n\<close>
  values and \<open>var\<close> equal to their unbiased sample variance; \<open>get_gaussian_params\<close> itself
  returns these statistics without raising or printing.
\<close>

theorem fit_unbiased_statistics:
  assumes "distinct (map fst fd)" and "(l, t) \<in> set fd"
    and "shape t = n # rest" and "1 < n" and "wf_tensor t" and "elems t = map Some xs"
    and "fit_distribution self fd out = (None, s', out')"
  shows "get_gaussian_params t = Inr (unbiased_stats n (prod_list rest) xs, []) \<and>
    map_of (data s') l =
      Some \<lparr>mu = map (\<lambda>j. Some (sum_list (neuron_samples n (prod_list rest) xs j) / real n))
                  [0..<prod_list rest],
            var = map (\<lambda>j. Some (sum_list (map (\<lambda>z. (z - sum_list (neuron_samples n (prod_list rest) xs j) / real n)\<^sup>2)
                                         (neuron_samples n (prod_list rest) xs j)) / (real n - 1)))
                  [0..<prod_list rest]\<rparr>"
proof -
  have g: "get_gaussian_params t = Inr (unbiased_stats n (prod_list rest) xs, [])"
    using assms(3-6) by (rule get_gaussian_params_finite)
  from fit_distribution_None [OF assms(1,7)] obtain res where
    f: "fits fd res" and s: "s' = self\<lparr>data := stats_of res\<rparr>" by blast
  from fits_lookup [OF f assms(1,2)] g
  have "map_of (data s') l = Some (unbiased_stats n (prod_list rest) xs)"
    using s by auto
  then show ?thesis
    using g by (simp add: unbiased_stats_def sample_mean_def sample_variance_def)
qed

theorem fit_unbiased_statistics_witness:
  "get_gaussian_params \<lparr>shape = [2, 2], elems = map Some [1, 3, 3, 7]\<rparr> =
     Inr (unbiased_stats 2 2 [1, 3, 3, 7], []) \<and>
   map_of [(''a'', \<lparr>mu = [Some 2, Some 5], var = [Some 2, Some 8]\<rparr>)] ''a'' =
     Some \<lparr>mu = [Some ((1 + 3) / 2), Some ((3 + 7) / 2)],
           var = [Some (((1 - (1 + 3) / 2)\<^sup>2 + (3 - (1 + 3) / 2)\<^sup>2) / (2 - 1)),
                  Some (((3 - (3 + 7) / 2)\<^sup>2 + (7 - (3 + 7) / 2)\<^sup>2) / (2 - 1))]\<rparr>"
proof -
  have f: "fit_distribution new_VDNAGauss
     [(''a'', \<lparr>shape = [2, 2], elems = map Some [1, 3, 3, 7]\<rparr>)] [] =
   (None, \<lparr>data = [(''a'', \<lparr>mu = [Some 2, Some 5], var = [Some 2, Some 8]\<rparr>)], num_images = 0\<rparr>, [])"
    by (simp add: fit_distribution_def new_VDNAGauss_def dict_get_def get_gaussian_params_def
      view_batch_def torch_mean0_def torch_var0_def column_def Let_def upt_rec)
  show ?thesis
    using fit_unbiased_statistics [of "[(''a'', \<lparr>shape = [2, 2], elems = map Some [1, 3, 3, 7]\<rparr>)]"
        "''a''" "\<lparr>shape = [2, 2], elems = map Some [1, 3, 3, 7]\<rparr>" 2 "[2]" "[1, 3, 3, 7]"
        new_VDNAGauss "[]" _ "[]", OF _ _ _ _ _ _ f]
    by (simp add: wf_tensor_def neuron_samples_def upt_rec)
qed

subsection \<open>The merge formulas, entry by entry\<close>

lemma merge_layer_elementwise:
  assumes "length (mu pa) = k" and "length (var pa) = k" and "length (mu pb) = k" and "length (var pb) = k"
  shows "merge_layer na nb pa pb =
    \<lparr>mu = map (\<lambda>j. elem_mu na nb (mu pa ! j) (mu pb ! j)) [0..<k],
     var = map (\<lambda>j. elem_var na nb (mu pa ! j) (var pa ! j) (mu pb ! j) (var pb ! j)) [0..<k]\<rparr>"
proof -
  have m: "tdiv (map2 fadd (tscale (mu pa) na) (tscale (mu pb) nb)) (na + nb) =
      map (\<lambda>j. elem_mu na nb (mu pa ! j) (mu pb ! j)) [0..<k]"
    using assms by (intro nth_equalityI) (simp_all add: tdiv_def tscale_def elem_mu_def)
  have v: "tdiv (map2 fadd
                  (map2 fadd
                     (map2 fadd (tscale (var pa) (na - 1))
                        (tscale (tsquare (map2 fsub (mu pa) (map (\<lambda>j. elem_mu na nb (mu pa ! j) (mu pb ! j)) [0..<k]))) na))
                     (tscale (var pb) (nb - 1)))
                  (tscale (tsquare (map2 fsub (mu pb) (map (\<lambda>j. elem_mu na nb (mu pa ! j) (mu pb ! j)) [0..<k]))) nb))
                (na + nb - 1) =
      map (\<lambda>j. elem_var na nb (mu pa ! j) (var pa ! j) (mu pb ! j) (var pb ! j)) [0..<k]"
    using assms by (intro nth_equalityI) (simp_all add: tdiv_def tscale_def tsquare_def elem_var_def)
  show ?thesis
    unfolding merge_layer_def Let_def m v ..
qed

lemma elem_mu_Some:
  "na + nb \<noteq> 0 \<Longrightarrow> elem_mu na nb (Some x) (Some y) = Some (mu_combined x na y nb)"
  by (simp add: elem_mu_def mu_combined_def)

lemma elem_var_Some:
  "na + nb \<noteq> 0 \<Longrightarrow> na + nb - 1 \<noteq> 0 \<Longrightarrow>
   elem_var na nb (Some xa) (Some va) (Some xb) (Some vb) = Some (var_combined xa va na xb vb nb)"
  by (simp add: elem_var_def elem_mu_Some var_combined_def power2_eq_square del: of_int_diff of_int_add)

subsection \<open>Pooled mean and variance\<close>

lemma sum_squares_expand:
  "sum_list (map (\<lambda>z. (z - c)\<^sup>2) zs) =
   sum_list (map (\<lambda>z. z\<^sup>2) zs) - 2 * c * sum_list zs + real (length zs) * c\<^sup>2"
  by (induction zs) (simp_all add: power2_eq_square algebra_simps)

lemma sum_squares_shift:
  assumes "zs \<noteq> []"
  shows "sum_list (map (\<lambda>z. (z - c)\<^sup>2) zs) =
    sum_list (map (\<lambda>z. (z - sample_mean zs)\<^sup>2) zs) + real (length zs) * (sample_mean zs - c)\<^sup>2"
proof -
  define n where "n = real (length zs)"
  define s where "s = sum_list zs"
  have n: "n \<noteq> 0" using assms by (simp add: n_def)
  have "sum_list (map (\<lambda>z. (z - c)\<^sup>2) zs) - sum_list (map (\<lambda>z. (z - s / n)\<^sup>2) zs) =
      n * c\<^sup>2 - 2 * c * s + 2 * (s / n) * s - n * (s / n)\<^sup>2"
    unfolding sum_squares_expand [of c] sum_squares_expand [of "s / n"] by (simp add: n_def s_def)
  also have "\<dots> = n * (s / n - c)\<^sup>2"
    using n by (simp add: power2_eq_square field_simps)
  finally show ?thesis
    by (simp add: sample_mean_def n_def s_def)
qed

lemma pooled_mean:
  assumes "as \<noteq> []" and "bs \<noteq> []"
  shows "sample_mean (as @ bs) =
    mu_combined (sample_mean as) (int (length as)) (sample_mean bs) (int (length bs))"
  using assms by (simp add: sample_mean_def mu_combined_def)

lemma sample_variance_times:
  assumes "2 \<le> length zs"
  shows "sample_variance zs * real_of_int (int (length zs) - 1) =
    sum_list (map (\<lambda>z. (z - sample_mean zs)\<^sup>2) zs)"
  using assms by (simp add: sample_variance_def)

lemma pooled_variance:
  assumes "2 \<le> length as" and "2 \<le> length bs"
  shows "sample_variance (as @ bs) =
    var_combined (sample_mean as) (sample_variance as) (int (length as))
                 (sample_mean bs) (sample_variance bs) (int (length bs))"
proof -
  define M where "M = sample_mean (as @ bs)"
  have ne: "as \<noteq> []" "bs \<noteq> []" using assms by auto
  have M: "mu_combined (sample_mean as) (int (length as)) (sample_mean bs) (int (length bs)) = M"
    using pooled_mean [OF ne] by (simp add: M_def)
  have "sum_list (map (\<lambda>z. (z - M)\<^sup>2) (as @ bs)) =
      sum_list (map (\<lambda>z. (z - M)\<^sup>2) as) + sum_list (map (\<lambda>z. (z - M)\<^sup>2) bs)"
    by simp
  also have "\<dots> =
      (sample_variance as * real_of_int (int (length as) - 1) + real (length as) * (sample_mean as - M)\<^sup>2) +
      (sample_variance bs * real_of_int (int (length bs) - 1) + real (length bs) * (sample_mean bs - M)\<^sup>2)"
    unfolding sum_squares_shift [OF ne(1), of M] sum_squares_shift [OF ne(2), of M]
      sample_variance_times [OF assms(1)] sample_variance_times [OF assms(2)] ..
  finally have "sum_list (map (\<lambda>z. (z - M)\<^sup>2) (as @ bs)) =
      sample_variance as * real_of_int (int (length as) - 1) + real (length as) * (sample_mean as - M)\<^sup>2 +
      sample_variance bs * real_of_int (int (length bs) - 1) + real (length bs) * (sample_mean bs - M)\<^sup>2"
    by simp
  moreover have "real (length (as @ bs)) - 1 = real_of_int (int (length as) + int (length bs) - 1)"
    by simp
  ultimately show ?thesis
    unfolding var_combined_def M sample_variance_def [of "as @ bs"] M_def [symmetric]
    by (simp del: of_int_diff of_int_add)
qed

subsection \<open>Merging two fits and fitting the pooled samples\<close>

lemma neuron_samples_append:
  assumes "length xs = na * m" and "j < m"
  shows "neuron_samples (na + nb) m (xs @ ys) j = neuron_samples na m xs j @ neuron_samples nb m ys j"
proof -
  have 1: "map (\<lambda>i. (xs @ ys) ! (i * m + j)) [0..<na] = map (\<lambda>i. xs ! (i * m + j)) [0..<na]"
  proof (intro map_cong refl)
    fix i assume "i \<in> set [0..<na]"
    then have "i * m + j < length xs"
      using assms batch_index [of i na j m] by simp
    then show "(xs @ ys) ! (i * m + j) = xs ! (i * m + j)"
      by (simp only: nth_append_left)
  qed
  have "[na..<na + nb] = map (\<lambda>i. i + na) [0..<nb]"
    by (simp only: map_add_upt add.commute [of nb na])
  then have "map (\<lambda>i. (xs @ ys) ! (i * m + j)) [na..<na + nb] =
      map (\<lambda>i. (xs @ ys) ! ((i + na) * m + j)) [0..<nb]"
    by (simp only: map_map comp_def)
  also have "\<dots> = map (\<lambda>i. ys ! (i * m + j)) [0..<nb]"
  proof (intro map_cong refl)
    fix i
    have "(i + na) * m + j = length xs + (i * m + j)"
      using assms(1) by (simp add: algebra_simps)
    then show "(xs @ ys) ! ((i + na) * m + j) = ys ! (i * m + j)"
      by (simp only: nth_append_length_plus)
  qed
  finally have 2: "map (\<lambda>i. (xs @ ys) ! (i * m + j)) [na..<na + nb] = map (\<lambda>i. ys ! (i * m + j)) [0..<nb]" .
  have "[0..<na + nb] = [0..<na] @ [na..<na + nb]"
    by (rule upt_add_eq_append) simp
  then have "map (\<lambda>i. (xs @ ys) ! (i * m + j)) [0..<na + nb] =
      map (\<lambda>i. (xs @ ys) ! (i * m + j)) [0..<na] @ map (\<lambda>i. (xs @ ys) ! (i * m + j)) [na..<na + nb]"
    by (simp only: map_append)
  then show ?thesis
    unfolding neuron_samples_def 1 2 .
qed

lemma merge_unbiased_stats:
  assumes "length xs = na * m" and "2 \<le> na" and "2 \<le> nb"
  shows "merge_layer (int na) (int nb) (unbiased_stats na m xs) (unbiased_stats nb m ys) =
    unbiased_stats (na + nb) m (xs @ ys)"
proof -
  have nz: "int na + int nb \<noteq> 0" "int na + int nb - 1 \<noteq> 0" using assms(2,3) by auto
  have "merge_layer (int na) (int nb) (unbiased_stats na m xs) (unbiased_stats nb m ys) =
    \<lparr>mu = map (\<lambda>j. elem_mu (int na) (int nb) (mu (unbiased_stats na m xs) ! j) (mu (unbiased_stats nb m ys) ! j)) [0..<m],
     var = map (\<lambda>j. elem_var (int na) (int nb) (mu (unbiased_stats na m xs) ! j) (var (unbiased_stats na m xs) ! j)
                       (mu (unbiased_stats nb m ys) ! j) (var (unbiased_stats nb m ys) ! j)) [0..<m]\<rparr>"
    by (rule merge_layer_elementwise) (simp_all add: unbiased_stats_def)
  also have "\<dots> = unbiased_stats (na + nb) m (xs @ ys)"
  proof -
    have "map (\<lambda>j. elem_mu (int na) (int nb) (mu (unbiased_stats na m xs) ! j) (mu (unbiased_stats nb m ys) ! j)) [0..<m] =
        map (\<lambda>j. Some (sample_mean (neuron_samples (na + nb) m (xs @ ys) j))) [0..<m]"
    proof (intro map_cong refl)
      fix j assume "j \<in> set [0..<m]"
      then have j: "j < m" by simp
      have ne: "neuron_samples na m xs j \<noteq> []" "neuron_samples nb m ys j \<noteq> []"
        using assms(2,3) by (auto simp: neuron_samples_def)
      show "elem_mu (int na) (int nb) (mu (unbiased_stats na m xs) ! j) (mu (unbiased_stats nb m ys) ! j) =
          Some (sample_mean (neuron_samples (na + nb) m (xs @ ys) j))"
        using j nz pooled_mean [OF ne]
        by (simp add: unbiased_stats_def elem_mu_Some neuron_samples_append [OF assms(1) j])
    qed
    moreover have "map (\<lambda>j. elem_var (int na) (int nb) (mu (unbiased_stats na m xs) ! j) (var (unbiased_stats na m xs) ! j)
                       (mu (unbiased_stats nb m ys) ! j) (var (unbiased_stats nb m ys) ! j)) [0..<m] =
        map (\<lambda>j. Some (sample_variance (neuron_samples (na + nb) m (xs @ ys) j))) [0..<m]"
    proof (intro map_cong refl)
      fix j assume "j \<in> set [0..<m]"
      then have j: "j < m" by simp
      have len: "2 \<le> length (neuron_samples na m xs j)" "2 \<le> length (neuron_samples nb m ys j)"
        using assms(2,3) by simp_all
      show "elem_var (int na) (int nb) (mu (unbiased_stats na m xs) ! j) (var (unbiased_stats na m xs) ! j)
                       (mu (unbiased_stats nb m ys) ! j) (var (unbiased_stats nb m ys) ! j) =
          Some (sample_variance (neuron_samples (na + nb) m (xs @ ys) j))"
        using j nz pooled_variance [OF len]
        by (simp add: unbiased_stats_def elem_var_Some neuron_samples_append [OF assms(1) j])
    qed
    ultimately show ?thesis by (simp add: unbiased_stats_def)
  qed
  finally show ?thesis .
qed

lemma map_Some_the: "list_all (\<lambda>x. x \<noteq> None) xs \<Longrightarrow> map Some (map the xs) = xs"
  by (induction xs) auto

lemma finite_batch_params:
  assumes "finite_batch n t" and "1 < n"
  shows "get_gaussian_params t = Inr (batch_stats n t, [])"
proof -
  have sh: "shape t = n # tl (shape t)" using assms(1) by (cases "shape t") (auto simp: finite_batch_def)
  have "list_all (\<lambda>x. x \<noteq> None) (elems t)" using assms(1) unfolding finite_batch_def by blast
  then have el: "elems t = map Some (map the (elems t))"
    by (rule map_Some_the [symmetric])
  have wf: "wf_tensor t" using assms(1) by (simp add: finite_batch_def)
  show ?thesis
    unfolding batch_stats_def by (rule get_gaussian_params_finite [OF sh assms(2) wf el])
qed

lemma finite_batch_length:
  "finite_batch n t \<Longrightarrow> length (map the (elems t)) = n * prod_list (tl (shape t))"
  by (cases "shape t") (auto simp: finite_batch_def wf_tensor_def)

lemma fit_finite_batches:
  assumes "distinct (map fst fd)" and "list_all (\<lambda>(l, t). finite_batch n t) fd" and "1 < n"
  shows "fit_distribution s fd out = (None, s\<lparr>data := map (\<lambda>(l, t). (l, batch_stats n t)) fd\<rparr>, out)"
proof -
  define res where "res = map (\<lambda>(l, t). (l, batch_stats n t, [] :: string list)) fd"
  have "fits fd res"
    unfolding fits_def res_def list_all2_map2 list_all2_same
    using assms(2,3) by (auto simp: list_all_iff finite_batch_params)
  then have "fit_distribution s fd out = (None, s\<lparr>data := stats_of res\<rparr>, out @ printed_of res)"
    using assms(1) by (intro fit_distribution_fits)
  moreover have "stats_of res = map (\<lambda>(l, t). (l, batch_stats n t)) fd"
    by (simp add: stats_of_def res_def case_prod_unfold)
  moreover have "printed_of res = []"
    unfolding printed_of_def res_def by (induction fd) auto
  ultimately show ?thesis by simp
qed

lemma cat_finite_batches:
  assumes "finite_batch na ta" and "finite_batch nb tb"
    and "prod_list (tl (shape tb)) = prod_list (tl (shape ta))"
  shows "finite_batch (na + nb) (cat_batches ta tb)"
  using assms
  by (cases "shape ta"; cases "shape tb")
     (auto simp: finite_batch_def cat_batches_def wf_tensor_def algebra_simps)

lemma cat_batch_stats:
  assumes "finite_batch na ta" and "finite_batch nb tb"
    and "prod_list (tl (shape tb)) = prod_list (tl (shape ta))" and "2 \<le> na" and "2 \<le> nb"
  shows "batch_stats (na + nb) (cat_batches ta tb) =
    merge_layer (int na) (int nb) (batch_stats na ta) (batch_stats nb tb)"
proof -
  have "merge_layer (int na) (int nb)
      (unbiased_stats na (prod_list (tl (shape ta))) (map the (elems ta)))
      (unbiased_stats nb (prod_list (tl (shape ta))) (map the (elems tb))) =
    unbiased_stats (na + nb) (prod_list (tl (shape ta))) (map the (elems ta) @ map the (elems tb))"
    by (rule merge_unbiased_stats [OF finite_batch_length [OF assms(1)] assms(4,5)])
  then show ?thesis
    using assms(3) by (simp add: batch_stats_def cat_batches_def)
qed

lemma vdna_add_merged:
  assumes "same_schema a b" and "wf_vdna a" and "wf_vdna b"
    and "list_all2 (merged_from a b) (data a) res"
  shows "vdna_add a b = Inr \<lparr>data = res, num_images = num_images a + num_images b\<rparr>"
proof -
  have d: "distinct (map fst (data a))" using assms(2) by (simp add: wf_vdna_def)
  have "add_loop a b (map fst (data a)) [] = Inr ([] @ res)"
  proof (rule add_loop_merged [OF assms(4)])
    show "\<forall>(l, p)\<in>set (data a). dict_get (data a) l = Inr p \<and> length (var p) = length (mu p)"
      using assms(2) by (auto simp: wf_vdna_def list_all_iff dict_get_mem)
    show "\<forall>(l, p)\<in>set (data b). length (var p) = length (mu p)"
      using assms(3) by (auto simp: wf_vdna_def list_all_iff)
  qed (use d in simp_all)
  then show ?thesis
    using assms(1) by (simp add: vdna_add_def common_before_add_def new_VDNAGauss_def)
qed

lemma map_of_map_values:
  "map_of (map (\<lambda>(l, t). (l, f t)) xs) l = map_option f (map_of xs l)"
  by (induction xs) auto

lemma length_batch_stats [simp]:
  "length (mu (batch_stats n t)) = prod_list (tl (shape t))"
  "length (var (batch_stats n t)) = prod_list (tl (shape t))"
  by (simp_all add: batch_stats_def unbiased_stats_def)

lemma merge_layer_entry:
  assumes "length (mu pa) = k" and "length (var pa) = k" and "length (mu pb) = k" and "length (var pb) = k"
    and "j < k" and "na + nb \<noteq> 0" and "na + nb - 1 \<noteq> 0"
    and "mu pa ! j = Some ma" and "var pa ! j = Some va" and "mu pb ! j = Some mb" and "var pb ! j = Some vb"
  shows "mu (merge_layer na nb pa pb) ! j = Some (mu_combined ma na mb nb)"
    and "var (merge_layer na nb pa pb) ! j = Some (var_combined ma va na mb vb nb)"
  using assms(5-) by (simp_all add: merge_layer_elementwise [OF assms(1-4)] elem_mu_Some elem_var_Some)

lemma map_of_map_keyed:
  "map_of (map (\<lambda>(l, t). (l, f l t)) xs) l = map_option (f l) (map_of xs l)"
  by (induction xs) auto

lemma same_layers_lookup:
  assumes "same_layers fa fb" and "(l, ta) \<in> set fa"
  shows "\<exists>tb. map_of fb l = Some tb \<and> prod_list (tl (shape tb)) = prod_list (tl (shape ta))"
  using assms by (auto simp: same_layers_def list_all_iff)

lemma batch_stats_entries:
  assumes "j < prod_list (tl (shape t))"
  shows "\<exists>m v. mu (batch_stats n t) ! j = Some m \<and> var (batch_stats n t) ! j = Some v"
  using assms by (simp add: batch_stats_def unbiased_stats_def)

text \<open>
  Claim C1. Two distributions fitted on batches of \<open>na \<ge> 2\<close> and \<open>nb \<ge> 2\<close> samples with finite
  entries, over the same layers and neuron counts, merge without error into a distribution
  with \<open>na + nb\<close> samples whose \<open>data\<close> is the \<open>data\<close> obtained by fitting the concatenated
  batches directly; for every layer and neuron the merged \<open>mu\<close> and \<open>var\<close> are the values of
  the two combination formulas at the operands' entries.
\<close>

theorem merge_equals_pooled_fit:
  assumes "distinct (map fst fa)" and "distinct (map fst fb)" and "same_layers fa fb"
    and "2 \<le> na" and "2 \<le> nb"
    and "list_all (\<lambda>(l, t). finite_batch na t) fa" and "list_all (\<lambda>(l, t). finite_batch nb t) fb"
    and "fit_distribution sa fa outa = (None, a, outa')" and "num_images a = int na"
    and "fit_distribution sb fb outb = (None, b, outb')" and "num_images b = int nb"
  shows "\<exists>r c. vdna_add a b = Inr r \<and> num_images r = int (na + nb) \<and>
      fit_distribution sc (pooled fa fb) outc = (None, c, outc) \<and> data r = data c \<and>
      (\<forall>l pa pb j. map_of (data a) l = Some pa \<and> map_of (data b) l = Some pb \<and> j < length (mu pa) \<longrightarrow>
         (\<exists>ma va mb vb pr.
            mu pa ! j = Some ma \<and> var pa ! j = Some va \<and> mu pb ! j = Some mb \<and> var pb ! j = Some vb \<and>
            map_of (data r) l = Some pr \<and>
            mu pr ! j = Some (mu_combined ma (int na) mb (int nb)) \<and>
            var pr ! j = Some (var_combined ma va (int na) mb vb (int nb))))"
proof -
  have na1: "1 < na" and nb1: "1 < nb" using assms(4,5) by simp_all
  have da: "data a = map (\<lambda>(l, t). (l, batch_stats na t)) fa"
    using fit_finite_batches [OF assms(1,6) na1, of sa outa] assms(8) by auto
  have db: "data b = map (\<lambda>(l, t). (l, batch_stats nb t)) fb"
    using fit_finite_batches [OF assms(2,7) nb1, of sb outb] assms(10) by auto
  have ka: "map fst (data a) = map fst fa" unfolding da by (simp add: case_prod_unfold comp_def)
  have kb: "map fst (data b) = map fst fb" unfolding db by (simp add: case_prod_unfold comp_def)
  have lb: "map_of (data b) l = map_option (batch_stats nb) (map_of fb l)" for l
    unfolding db by (rule map_of_map_keyed)
  have la: "map_of (data a) l = map_option (batch_stats na) (map_of fa l)" for l
    unfolding da by (rule map_of_map_keyed)
  have pair: "\<exists>tb. map_of fb l = Some tb \<and> finite_batch nb tb \<and> finite_batch na ta \<and>
      prod_list (tl (shape tb)) = prod_list (tl (shape ta))" if "(l, ta) \<in> set fa" for l ta
  proof -
    from same_layers_lookup [OF assms(3) that] obtain tb where
      tb: "map_of fb l = Some tb" "prod_list (tl (shape tb)) = prod_list (tl (shape ta))" by blast
    then have "(l, tb) \<in> set fb" by (auto dest: map_of_SomeD)
    then have "finite_batch nb tb" using assms(7) by (auto simp: list_all_iff)
    moreover have "finite_batch na ta" using assms(6) that by (auto simp: list_all_iff)
    ultimately show ?thesis using tb by blast
  qed
  define c where "c = sc\<lparr>data := map (\<lambda>(l, t). (l, batch_stats (na + nb) t)) (pooled fa fb)\<rparr>"
  have kp: "map fst (pooled fa fb) = map fst fa"
    by (simp add: pooled_def case_prod_unfold comp_def)
  have "list_all (\<lambda>(l, t). finite_batch (na + nb) t) (pooled fa fb)"
    unfolding pooled_def list_all_iff
  proof (clarsimp)
    fix l ta assume "(l, ta) \<in> set fa"
    from pair [OF this] show "finite_batch (na + nb) (cat_batches ta (the (map_of fb l)))"
      by (auto intro: cat_finite_batches)
  qed
  then have fc: "fit_distribution sc (pooled fa fb) outc = (None, c, outc)"
    unfolding c_def using assms(1,4) by (intro fit_finite_batches) (simp_all add: kp)
  have dc: "data c = map (\<lambda>(l, ta). (l, batch_stats (na + nb) (cat_batches ta (the (map_of fb l))))) fa"
    by (simp add: c_def pooled_def case_prod_unfold comp_def)
  have m: "list_all2 (merged_from a b) (data a) (data c)"
    unfolding da dc list_all2_map1 list_all2_map2 list_all2_same
  proof (clarsimp)
    fix l ta assume "(l, ta) \<in> set fa"
    from pair [OF this] obtain tb where tb: "map_of fb l = Some tb"
      and f: "finite_batch nb tb" "finite_batch na ta"
      and n: "prod_list (tl (shape tb)) = prod_list (tl (shape ta))" by blast
    have "batch_stats (na + nb) (cat_batches ta tb) =
        merge_layer (int na) (int nb) (batch_stats na ta) (batch_stats nb tb)"
      using f n assms(4,5) by (intro cat_batch_stats)
    then show "merged_from a b (l, batch_stats na ta)
        (l, batch_stats (na + nb) (cat_batches ta (the (map_of fb l))))"
      using tb n assms(9,11) by (simp add: merged_from_iff lb)
  qed
  have "list_all (\<lambda>(l, p). length (var p) = length (mu p)) (data a)"
    unfolding da by (auto simp: list_all_iff)
  moreover have "distinct (map fst (data a))" using assms(1) by (simp only: ka)
  ultimately have wa: "wf_vdna a" by (simp add: wf_vdna_def)
  have "list_all (\<lambda>(l, p). length (var p) = length (mu p)) (data b)"
    unfolding db by (auto simp: list_all_iff)
  moreover have "distinct (map fst (data b))" using assms(2) by (simp only: kb)
  ultimately have wb: "wf_vdna b" by (simp add: wf_vdna_def)
  have ss: "same_schema a b"
    unfolding same_schema_def ka kb list_all_iff
  proof (intro conjI ballI)
    show "set (map fst fa) = set (map fst fb)" using assms(3) by (simp add: same_layers_def)
  next
    fix l assume "l \<in> set (map fst fa)"
    then obtain ta where ta: "(l, ta) \<in> set fa" by auto
    then have "map_of fa l = Some ta" using assms(1) by simp
    moreover from pair [OF ta] obtain tb where "map_of fb l = Some tb"
      "prod_list (tl (shape tb)) = prod_list (tl (shape ta))" by blast
    ultimately show "map_option (\<lambda>p. length (mu p)) (map_of (data a) l) =
        map_option (\<lambda>p. length (mu p)) (map_of (data b) l)"
      by (simp add: la lb)
  qed
  define r where "r = \<lparr>data = data c, num_images = num_images a + num_images b\<rparr>"
  have r: "vdna_add a b = Inr r"
    unfolding r_def by (rule vdna_add_merged [OF ss wa wb m])
  have formulas: "\<exists>ma va mb vb pr.
            mu pa ! j = Some ma \<and> var pa ! j = Some va \<and> mu pb ! j = Some mb \<and> var pb ! j = Some vb \<and>
            map_of (data r) l = Some pr \<and>
            mu pr ! j = Some (mu_combined ma (int na) mb (int nb)) \<and>
            var pr ! j = Some (var_combined ma va (int na) mb vb (int nb))"
    if h: "map_of (data a) l = Some pa \<and> map_of (data b) l = Some pb \<and> j < length (mu pa)" for l pa pb j
  proof -
    from h obtain ta where ta: "map_of fa l = Some ta" and pa: "pa = batch_stats na ta"
      by (auto simp: la)
    from h obtain tb where tb: "map_of fb l = Some tb" and pb: "pb = batch_stats nb tb"
      by (auto simp: lb)
    have mem: "(l, ta) \<in> set fa" using ta by (rule map_of_SomeD)
    from pair [OF mem] tb have f: "finite_batch nb tb" "finite_batch na ta"
      and n: "prod_list (tl (shape tb)) = prod_list (tl (shape ta))" by auto
    have j: "j < prod_list (tl (shape ta))" using h pa by simp
    from batch_stats_entries [OF j, of na] obtain ma va where
      a: "mu pa ! j = Some ma" "var pa ! j = Some va" unfolding pa by blast
    from batch_stats_entries [of j tb nb] j n obtain mb vb where
      b: "mu pb ! j = Some mb" "var pb ! j = Some vb" unfolding pb by auto
    have "map_of (data c) l = Some (batch_stats (na + nb) (cat_batches ta tb))"
      unfolding dc using ta tb by (simp add: map_of_map_keyed)
    also have "batch_stats (na + nb) (cat_batches ta tb) = merge_layer (int na) (int nb) pa pb"
      unfolding pa pb using f n assms(4,5) by (intro cat_batch_stats)
    finally have pr: "map_of (data r) l = Some (merge_layer (int na) (int nb) pa pb)"
      by (simp add: r_def)
    have nz: "int na + int nb \<noteq> 0" "int na + int nb - 1 \<noteq> 0" using assms(4,5) by auto
    have len: "length (mu pa) = prod_list (tl (shape ta))" "length (var pa) = prod_list (tl (shape ta))"
      "length (mu pb) = prod_list (tl (shape ta))" "length (var pb) = prod_list (tl (shape ta))"
      using n by (simp_all add: pa pb)
    from merge_layer_entry [OF len j nz a b] pr a b show ?thesis by blast
  qed
  have "num_images r = int (na + nb)" using assms(9,11) by (simp add: r_def)
  moreover have "data r = data c" by (simp add: r_def)
  ultimately show ?thesis using r fc formulas by blast
qed

theorem merge_equals_pooled_fit_witness:
  "\<exists>r c. vdna_add \<lparr>data = [(''L'', \<lparr>mu = [Some 2], var = [Some 2]\<rparr>)], num_images = 2\<rparr>
                  \<lparr>data = [(''L'', \<lparr>mu = [Some 6], var = [Some 2]\<rparr>)], num_images = 2\<rparr> = Inr r \<and>
      num_images r = int (2 + 2) \<and>
      fit_distribution new_VDNAGauss
        (pooled [(''L'', \<lparr>shape = [2, 1], elems = [Some 1, Some 3]\<rparr>)]
                [(''L'', \<lparr>shape = [2, 1], elems = [Some 5, Some 7]\<rparr>)]) [] = (None, c, []) \<and>
      data r = data c \<and>
      (\<forall>l pa pb j.
         map_of (data \<lparr>data = [(''L'', \<lparr>mu = [Some 2], var = [Some 2]\<rparr>)], num_images = 2\<rparr>) l = Some pa \<and>
         map_of (data \<lparr>data = [(''L'', \<lparr>mu = [Some 6], var = [Some 2]\<rparr>)], num_images = 2\<rparr>) l = Some pb \<and>
         j < length (mu pa) \<longrightarrow>
         (\<exists>ma va mb vb pr.
            mu pa ! j = Some ma \<and> var pa ! j = Some va \<and> mu pb ! j = Some mb \<and> var pb ! j = Some vb \<and>
            map_of (data r) l = Some pr \<and>
            mu pr ! j = Some (mu_combined ma (int 2) mb (int 2)) \<and>
            var pr ! j = Some (var_combined ma va (int 2) mb vb (int 2))))"
proof -
  have fa: "fit_distribution \<lparr>data = [], num_images = 2\<rparr>
      [(''L'', \<lparr>shape = [2, 1], elems = [Some 1, Some 3]\<rparr>)] [] =
    (None, \<lparr>data = [(''L'', \<lparr>mu = [Some 2], var = [Some 2]\<rparr>)], num_images = 2\<rparr>, [])"
    by (simp add: fit_distribution_def dict_get_def get_gaussian_params_def
      view_batch_def torch_mean0_def torch_var0_def column_def Let_def upt_rec)
  have fb: "fit_distribution \<lparr>data = [], num_images = 2\<rparr>
      [(''L'', \<lparr>shape = [2, 1], elems = [Some 5, Some 7]\<rparr>)] [] =
    (None, \<lparr>data = [(''L'', \<lparr>mu = [Some 6], var = [Some 2]\<rparr>)], num_images = 2\<rparr>, [])"
    by (simp add: fit_distribution_def dict_get_def get_gaussian_params_def
      view_batch_def torch_mean0_def torch_var0_def column_def Let_def upt_rec)
  have d: "distinct (map fst [(''L'', \<lparr>shape = [2, 1], elems = [Some (1::real), Some 3]\<rparr>)])"
    "distinct (map fst [(''L'', \<lparr>shape = [2, 1], elems = [Some (5::real), Some 7]\<rparr>)])"
    by simp_all
  have sl: "same_layers [(''L'', \<lparr>shape = [2, 1], elems = [Some 1, Some 3]\<rparr>)]
      [(''L'', \<lparr>shape = [2, 1], elems = [Some 5, Some 7]\<rparr>)]"
    by (simp add: same_layers_def)
  have n: "2 \<le> (2::nat)" by simp
  have ba: "list_all (\<lambda>(l, t). finite_batch 2 t) [(''L'', \<lparr>shape = [2, 1], elems = [Some 1, Some 3]\<rparr>)]"
    and bb: "list_all (\<lambda>(l, t). finite_batch 2 t) [(''L'', \<lparr>shape = [2, 1], elems = [Some 5, Some 7]\<rparr>)]"
    by (simp_all add: finite_batch_def wf_tensor_def)
  have i: "num_images \<lparr>data = [(''L'', \<lparr>mu = [Some 2], var = [Some 2]\<rparr>)], num_images = 2\<rparr> = int 2"
    "num_images \<lparr>data = [(''L'', \<lparr>mu = [Some 6], var = [Some 2]\<rparr>)], num_images = 2\<rparr> = int 2"
    by simp_all
  show ?thesis
    by (rule merge_equals_pooled_fit [OF d sl n n ba bb fa i(1) fb i(2)])
qed

lemma merge_example_values:
  "vdna_add \<lparr>data = [(''L'', \<lparr>mu = [Some 2], var = [Some 2]\<rparr>)], num_images = 2\<rparr>
            \<lparr>data = [(''L'', \<lparr>mu = [Some 6], var = [Some 2]\<rparr>)], num_images = 2\<rparr> =
   Inr \<lparr>data = [(''L'', \<lparr>mu = [Some 4], var = [Some (20 / 3)]\<rparr>)], num_images = 4\<rparr>"
  by (simp add: vdna_add_def common_before_add_def same_schema_def new_VDNAGauss_def dict_get_def
      add_mu_def add_var_def bcast_def tscale_def tdiv_def tsquare_def)

subsection \<open>Commutativity and associativity of the merge formulas\<close>

lemma weighted_shift:
  fixes xa xb M wa wb :: real
  assumes "wa + wb \<noteq> 0" and "m = (xa * wa + xb * wb) / (wa + wb)"
  shows "wa * (xa - m)\<^sup>2 + wb * (xb - m)\<^sup>2 + (wa + wb) * (m - M)\<^sup>2 =
    wa * (xa - M)\<^sup>2 + wb * (xb - M)\<^sup>2"
proof -
  have "(wa + wb) * m = xa * wa + xb * wb" using assms by simp
  then have key: "wa * (xa - m) + wb * (xb - m) = 0" by (simp add: algebra_simps)
  have "wa * (xa - M)\<^sup>2 + wb * (xb - M)\<^sup>2 =
      wa * (xa - m)\<^sup>2 + wb * (xb - m)\<^sup>2 + (wa + wb) * (m - M)\<^sup>2 +
      2 * (m - M) * (wa * (xa - m) + wb * (xb - m))"
    by (simp add: power2_eq_square algebra_simps)
  then show ?thesis using key by simp
qed

lemma mu_combined_commute: "mu_combined xa na xb nb = mu_combined xb nb xa na"
  by (simp add: mu_combined_def add.commute)

lemma var_combined_commute:
  "var_combined xa va na xb vb nb = var_combined xb vb nb xa va na"
  by (simp add: var_combined_def mu_combined_commute [of xa na xb nb] add.commute add.left_commute)

lemma mu_combined_assoc:
  assumes "na + nb \<noteq> 0" and "nb + nc \<noteq> 0"
  shows "mu_combined (mu_combined xa na xb nb) (na + nb) xc nc =
    mu_combined xa na (mu_combined xb nb xc nc) (nb + nc)"
proof -
  have a: "real_of_int na + real_of_int nb \<noteq> 0"
    using assms(1) by (metis of_int_add of_int_eq_0_iff)
  have b: "real_of_int nb + real_of_int nc \<noteq> 0"
    using assms(2) by (metis of_int_add of_int_eq_0_iff)
  show ?thesis
    using a b by (simp add: mu_combined_def add.assoc)
qed

lemma mu_combined_total:
  assumes "na + nb \<noteq> 0"
  shows "mu_combined (mu_combined xa na xb nb) (na + nb) xc nc =
    (xa * real_of_int na + xb * real_of_int nb + xc * real_of_int nc) /
    (real_of_int na + real_of_int nb + real_of_int nc)"
proof -
  have a: "real_of_int na + real_of_int nb \<noteq> 0"
    using assms(1) by (metis of_int_add of_int_eq_0_iff)
  show ?thesis using a by (simp add: mu_combined_def)
qed

lemma var_combined_left:
  assumes "na + nb \<noteq> 0" and "na + nb - 1 \<noteq> 0"
    and "T = mu_combined (mu_combined xa na xb nb) (na + nb) xc nc"
  shows "var_combined (mu_combined xa na xb nb) (var_combined xa va na xb vb nb) (na + nb) xc vc nc =
    (va * real_of_int (na - 1) + vb * real_of_int (nb - 1) + vc * real_of_int (nc - 1) +
     real_of_int na * (xa - T)\<^sup>2 + real_of_int nb * (xb - T)\<^sup>2 + real_of_int nc * (xc - T)\<^sup>2)
    / real_of_int (na + nb + nc - 1)"
proof -
  define m where "m = mu_combined xa na xb nb"
  have a: "real_of_int na + real_of_int nb \<noteq> 0"
    using assms(1) by (metis of_int_add of_int_eq_0_iff)
  have d: "real_of_int (na + nb - 1) \<noteq> 0" using assms(2) by simp
  have m: "m = (xa * real_of_int na + xb * real_of_int nb) / (real_of_int na + real_of_int nb)"
    by (simp add: m_def mu_combined_def)
  have v: "var_combined xa va na xb vb nb * real_of_int (na + nb - 1) =
      va * real_of_int (na - 1) + real_of_int na * (xa - m)\<^sup>2 +
      vb * real_of_int (nb - 1) + real_of_int nb * (xb - m)\<^sup>2"
    unfolding var_combined_def m_def [symmetric] using d by simp
  have s: "real_of_int na * (xa - m)\<^sup>2 + real_of_int nb * (xb - m)\<^sup>2 +
      (real_of_int na + real_of_int nb) * (m - T)\<^sup>2 =
      real_of_int na * (xa - T)\<^sup>2 + real_of_int nb * (xb - T)\<^sup>2"
    by (rule weighted_shift [OF a m])
  have "var_combined xa va na xb vb nb * real_of_int (na + nb - 1) +
      real_of_int (na + nb) * (m - T)\<^sup>2 + vc * real_of_int (nc - 1) + real_of_int nc * (xc - T)\<^sup>2 =
      va * real_of_int (na - 1) + vb * real_of_int (nb - 1) + vc * real_of_int (nc - 1) +
      real_of_int na * (xa - T)\<^sup>2 + real_of_int nb * (xb - T)\<^sup>2 + real_of_int nc * (xc - T)\<^sup>2"
    unfolding v using s by simp
  then show ?thesis
    unfolding var_combined_def [of m] m_def [symmetric] assms(3) [symmetric, unfolded m_def [symmetric]]
    by (simp add: m_def)
qed

lemma var_combined_assoc:
  assumes "na + nb \<noteq> 0" and "na + nb - 1 \<noteq> 0" and "nb + nc \<noteq> 0" and "nb + nc - 1 \<noteq> 0"
  shows "var_combined (mu_combined xa na xb nb) (var_combined xa va na xb vb nb) (na + nb) xc vc nc =
    var_combined xa va na (mu_combined xb nb xc nc) (var_combined xb vb nb xc vc nc) (nb + nc)"
proof -
  define T where "T = (xa * real_of_int na + xb * real_of_int nb + xc * real_of_int nc) /
    (real_of_int na + real_of_int nb + real_of_int nc)"
  have T1: "T = mu_combined (mu_combined xa na xb nb) (na + nb) xc nc"
    unfolding T_def by (rule mu_combined_total [OF assms(1), symmetric])
  have "mu_combined (mu_combined xb nb xc nc) (nb + nc) xa na =
      (xb * real_of_int nb + xc * real_of_int nc + xa * real_of_int na) /
      (real_of_int nb + real_of_int nc + real_of_int na)"
    by (rule mu_combined_total [OF assms(3)])
  then have T2: "T = mu_combined (mu_combined xb nb xc nc) (nb + nc) xa na"
    unfolding T_def by (simp add: add.commute add.left_commute)
  have "var_combined xa va na (mu_combined xb nb xc nc) (var_combined xb vb nb xc vc nc) (nb + nc) =
      var_combined (mu_combined xb nb xc nc) (var_combined xb vb nb xc vc nc) (nb + nc) xa va na"
    by (rule var_combined_commute)
  also have "\<dots> =
      (vb * real_of_int (nb - 1) + vc * real_of_int (nc - 1) + va * real_of_int (na - 1) +
       real_of_int nb * (xb - T)\<^sup>2 + real_of_int nc * (xc - T)\<^sup>2 + real_of_int na * (xa - T)\<^sup>2)
      / real_of_int (nb + nc + na - 1)"
    by (rule var_combined_left [OF assms(3,4) T2])
  also have "\<dots> =
      (va * real_of_int (na - 1) + vb * real_of_int (nb - 1) + vc * real_of_int (nc - 1) +
       real_of_int na * (xa - T)\<^sup>2 + real_of_int nb * (xb - T)\<^sup>2 + real_of_int nc * (xc - T)\<^sup>2)
      / real_of_int (na + nb + nc - 1)"
    by (simp add: add.commute add.left_commute)
  also have "\<dots> =
      var_combined (mu_combined xa na xb nb) (var_combined xa va na xb vb nb) (na + nb) xc vc nc"
    by (rule var_combined_left [OF assms(1,2) T1, symmetric])
  finally show ?thesis by (rule sym)
qed

lemma elem_mu_None [simp]: "elem_mu na nb None y = None" "elem_mu na nb x None = None"
  by (simp_all add: elem_mu_def)

lemma elem_var_None [simp]:
  "elem_var na nb None va xb vb = None" "elem_var na nb xa None xb vb = None"
  "elem_var na nb xa va None vb = None" "elem_var na nb xa va xb None = None"
  by (simp_all add: elem_var_def)

lemma elem_mu_commute: "elem_mu na nb x y = elem_mu nb na y x"
proof (cases x)
  case None
  then show ?thesis by simp
next
  case (Some a)
  then show ?thesis by (cases y) (simp_all add: elem_mu_def add.commute)
qed

lemma elem_var_commute:
  "elem_var na nb xa va xb vb = elem_var nb na xb vb xa va"
proof (cases "na + nb = 0 \<or> na + nb - 1 = 0")
  case True
  then consider "na + nb = 0" | "na + nb - 1 = 0" by blast
  then show ?thesis
  proof cases
    case 1
    then have z: "na + nb = 0" "nb + na = 0" by simp_all
    have "elem_mu na nb xa xb = None" "elem_mu nb na xb xa = None"
      unfolding elem_mu_def z by simp_all
    then show ?thesis unfolding elem_var_def by simp
  next
    case 2
    then have z: "na + nb - 1 = 0" "nb + na - 1 = 0" by simp_all
    show ?thesis unfolding elem_var_def z by simp
  qed
next
  case False
  then have nz: "na + nb \<noteq> 0" "na + nb - 1 \<noteq> 0" "nb + na \<noteq> 0" "nb + na - 1 \<noteq> 0" by auto
  show ?thesis
  proof (cases xa)
    case None
    then show ?thesis by simp
  next
    case xa: (Some a)
    show ?thesis
    proof (cases va)
      case None
      then show ?thesis by simp
    next
      case va: (Some u)
      show ?thesis
      proof (cases xb)
        case None
        then show ?thesis by simp
      next
        case xb: (Some b)
        show ?thesis
        proof (cases vb)
          case None
          then show ?thesis by simp
        next
          case vb: (Some w)
          show ?thesis
            unfolding xa va xb vb elem_var_Some [OF nz(1,2)] elem_var_Some [OF nz(3,4)]
            by (simp only: var_combined_commute [of a u na b w nb])
        qed
      qed
    qed
  qed
qed

lemma elem_mu_assoc:
  assumes "na + nb \<noteq> 0" and "nb + nc \<noteq> 0" and "na + nb + nc \<noteq> 0"
  shows "elem_mu (na + nb) nc (elem_mu na nb x y) z = elem_mu na (nb + nc) x (elem_mu nb nc y z)"
proof (cases x)
  case None
  then show ?thesis by simp
next
  case x: (Some a)
  show ?thesis
  proof (cases y)
    case None
    then show ?thesis by simp
  next
    case y: (Some b)
    show ?thesis
    proof (cases z)
      case None
      then show ?thesis by simp
    next
      case z: (Some c)
      have n: "na + (nb + nc) \<noteq> 0" using assms(3) by (simp add: add.assoc)
      show ?thesis
        unfolding x y z elem_mu_Some [OF assms(1)] elem_mu_Some [OF assms(2)]
          elem_mu_Some [OF assms(3)] elem_mu_Some [OF n]
        by (simp only: mu_combined_assoc [OF assms(1,2)])
    qed
  qed
qed

lemma elem_var_assoc_Some:
  assumes "na + nb \<noteq> 0" and "na + nb - 1 \<noteq> 0" and "nb + nc \<noteq> 0" and "nb + nc - 1 \<noteq> 0"
    and "na + nb + nc \<noteq> 0" and "na + nb + nc - 1 \<noteq> 0"
  shows "elem_var (na + nb) nc (elem_mu na nb (Some a) (Some b))
        (elem_var na nb (Some a) (Some u) (Some b) (Some v)) (Some c) (Some w) =
      elem_var na (nb + nc) (Some a) (Some u) (elem_mu nb nc (Some b) (Some c))
        (elem_var nb nc (Some b) (Some v) (Some c) (Some w))"
proof -
  have n: "na + (nb + nc) \<noteq> 0" "na + (nb + nc) - 1 \<noteq> 0"
    using assms(5,6) by (simp_all add: add.assoc)
  show ?thesis
    unfolding elem_mu_Some [OF assms(1)] elem_mu_Some [OF assms(3)]
      elem_var_Some [OF assms(1,2)] elem_var_Some [OF assms(3,4)]
      elem_var_Some [OF assms(5,6)] elem_var_Some [OF n]
    by (simp only: var_combined_assoc [OF assms(1-4)])
qed

lemma elem_var_assoc:
  assumes "na + nb \<noteq> 0" and "na + nb - 1 \<noteq> 0" and "nb + nc \<noteq> 0" and "nb + nc - 1 \<noteq> 0"
    and "na + nb + nc \<noteq> 0" and "na + nb + nc - 1 \<noteq> 0"
  shows "elem_var (na + nb) nc (elem_mu na nb xa xb) (elem_var na nb xa va xb vb) xc vc =
      elem_var na (nb + nc) xa va (elem_mu nb nc xb xc) (elem_var nb nc xb vb xc vc)"
proof (cases "xa = None \<or> va = None \<or> xb = None \<or> vb = None \<or> xc = None \<or> vc = None")
  case True
  then show ?thesis by auto
next
  case False
  then obtain a u b v c w where "xa = Some a" "va = Some u" "xb = Some b" "vb = Some v"
    "xc = Some c" "vc = Some w" by auto
  then show ?thesis
    by (simp only: elem_var_assoc_Some [OF assms])
qed

subsection \<open>Layers\<close>

lemma length_merge_layer:
  assumes "length (mu pa) = k" and "length (var pa) = k" and "length (mu pb) = k" and "length (var pb) = k"
  shows "length (mu (merge_layer na nb pa pb)) = k" and "length (var (merge_layer na nb pa pb)) = k"
  by (simp_all add: merge_layer_elementwise [OF assms])

lemma merge_layer_commute:
  assumes "length (mu pa) = k" and "length (var pa) = k" and "length (mu pb) = k" and "length (var pb) = k"
  shows "merge_layer na nb pa pb = merge_layer nb na pb pa"
  unfolding merge_layer_elementwise [OF assms] merge_layer_elementwise [OF assms(3,4,1,2)]
  by (simp add: elem_mu_commute [of na nb] elem_var_commute [of na nb])

lemma merge_layer_assoc:
  assumes "length (mu pa) = k" and "length (var pa) = k" and "length (mu pb) = k" and "length (var pb) = k"
    and "length (mu pc) = k" and "length (var pc) = k"
    and "0 < na" and "0 < nb" and "0 < nc"
  shows "merge_layer (na + nb) nc (merge_layer na nb pa pb) pc =
    merge_layer na (nb + nc) pa (merge_layer nb nc pb pc)"
proof -
  have nz: "na + nb \<noteq> 0" "na + nb - 1 \<noteq> 0" "nb + nc \<noteq> 0" "nb + nc - 1 \<noteq> 0"
    "na + nb + nc \<noteq> 0" "na + nb + nc - 1 \<noteq> 0"
    using assms(7-9) by auto
  note ab = length_merge_layer [OF assms(1-4), of na nb]
  note bc = length_merge_layer [OF assms(3-6), of nb nc]
  have l: "merge_layer (na + nb) nc (merge_layer na nb pa pb) pc =
    \<lparr>mu = map (\<lambda>j. elem_mu (na + nb) nc (mu (merge_layer na nb pa pb) ! j) (mu pc ! j)) [0..<k],
     var = map (\<lambda>j. elem_var (na + nb) nc (mu (merge_layer na nb pa pb) ! j) (var (merge_layer na nb pa pb) ! j)
                      (mu pc ! j) (var pc ! j)) [0..<k]\<rparr>"
    by (rule merge_layer_elementwise [OF ab assms(5,6)])
  have r: "merge_layer na (nb + nc) pa (merge_layer nb nc pb pc) =
    \<lparr>mu = map (\<lambda>j. elem_mu na (nb + nc) (mu pa ! j) (mu (merge_layer nb nc pb pc) ! j)) [0..<k],
     var = map (\<lambda>j. elem_var na (nb + nc) (mu pa ! j) (var pa ! j)
                      (mu (merge_layer nb nc pb pc) ! j) (var (merge_layer nb nc pb pc) ! j)) [0..<k]\<rparr>"
    by (rule merge_layer_elementwise [OF assms(1,2) bc])
  have m: "map (\<lambda>j. elem_mu (na + nb) nc (mu (merge_layer na nb pa pb) ! j) (mu pc ! j)) [0..<k] =
      map (\<lambda>j. elem_mu na (nb + nc) (mu pa ! j) (mu (merge_layer nb nc pb pc) ! j)) [0..<k]"
  proof (intro map_cong refl)
    fix j assume "j \<in> set [0..<k]"
    then have j: "j < k" by simp
    show "elem_mu (na + nb) nc (mu (merge_layer na nb pa pb) ! j) (mu pc ! j) =
        elem_mu na (nb + nc) (mu pa ! j) (mu (merge_layer nb nc pb pc) ! j)"
      using j by (simp add: merge_layer_elementwise [OF assms(1-4)] merge_layer_elementwise [OF assms(3-6)]
          elem_mu_assoc [OF nz(1,3,5)])
  qed
  have v: "map (\<lambda>j. elem_var (na + nb) nc (mu (merge_layer na nb pa pb) ! j) (var (merge_layer na nb pa pb) ! j)
                      (mu pc ! j) (var pc ! j)) [0..<k] =
      map (\<lambda>j. elem_var na (nb + nc) (mu pa ! j) (var pa ! j)
                      (mu (merge_layer nb nc pb pc) ! j) (var (merge_layer nb nc pb pc) ! j)) [0..<k]"
  proof (intro map_cong refl)
    fix j assume "j \<in> set [0..<k]"
    then have j: "j < k" by simp
    show "elem_var (na + nb) nc (mu (merge_layer na nb pa pb) ! j) (var (merge_layer na nb pa pb) ! j)
                      (mu pc ! j) (var pc ! j) =
        elem_var na (nb + nc) (mu pa ! j) (var pa ! j)
                      (mu (merge_layer nb nc pb pc) ! j) (var (merge_layer nb nc pb pc) ! j)"
      using j by (simp add: merge_layer_elementwise [OF assms(1-4)] merge_layer_elementwise [OF assms(3-6)]
          elem_var_assoc [OF nz])
  qed
  show ?thesis unfolding l r m v ..
qed

subsection \<open>Distributions\<close>

lemma same_schema_iff:
  "same_schema a b \<longleftrightarrow>
     set (map fst (data a)) = set (map fst (data b)) \<and>
     (\<forall>k \<in> set (map fst (data a)).
        map_option (\<lambda>p. length (mu p)) (map_of (data a) k) =
        map_option (\<lambda>p. length (mu p)) (map_of (data b) k))"
  by (simp add: same_schema_def list_all_iff)

lemma same_schema_sym:
  assumes "same_schema a b"
  shows "same_schema b a"
proof -
  from assms have 1: "set (map fst (data a)) = set (map fst (data b))"
    and 2: "\<And>k. k \<in> set (map fst (data a)) \<Longrightarrow>
        map_option (\<lambda>p. length (mu p)) (map_of (data a) k) =
        map_option (\<lambda>p. length (mu p)) (map_of (data b) k)"
    unfolding same_schema_iff by blast+
  show ?thesis
    unfolding same_schema_iff
  proof (intro conjI ballI)
    show "set (map fst (data b)) = set (map fst (data a))" using 1 by (rule sym)
  next
    fix k assume "k \<in> set (map fst (data b))"
    then have "k \<in> set (map fst (data a))" using 1 by blast
    from 2 [OF this] show "map_option (\<lambda>p. length (mu p)) (map_of (data b) k) =
        map_option (\<lambda>p. length (mu p)) (map_of (data a) k)" by (rule sym)
  qed
qed

lemma same_schema_trans:
  assumes "same_schema a b" and "same_schema b c"
  shows "same_schema a c"
proof -
  from assms(1) have 1: "set (map fst (data a)) = set (map fst (data b))"
    and 2: "\<And>k. k \<in> set (map fst (data a)) \<Longrightarrow>
        map_option (\<lambda>p. length (mu p)) (map_of (data a) k) =
        map_option (\<lambda>p. length (mu p)) (map_of (data b) k)"
    unfolding same_schema_iff by blast+
  from assms(2) have 3: "set (map fst (data b)) = set (map fst (data c))"
    and 4: "\<And>k. k \<in> set (map fst (data b)) \<Longrightarrow>
        map_option (\<lambda>p. length (mu p)) (map_of (data b) k) =
        map_option (\<lambda>p. length (mu p)) (map_of (data c) k)"
    unfolding same_schema_iff by blast+
  show ?thesis
    unfolding same_schema_iff
  proof (intro conjI ballI)
    show "set (map fst (data a)) = set (map fst (data c))" using 1 3 by (rule trans)
  next
    fix k assume k: "k \<in> set (map fst (data a))"
    then have "k \<in> set (map fst (data b))" using 1 by blast
    from 2 [OF k] 4 [OF this] show "map_option (\<lambda>p. length (mu p)) (map_of (data a) k) =
        map_option (\<lambda>p. length (mu p)) (map_of (data c) k)" by (rule trans)
  qed
qed

lemma merged_as_map:
  "list_all2 (merged_from a b) ps res \<Longrightarrow>
   res = map (\<lambda>(k, pa). (k, merge_layer (num_images a) (num_images b) pa (the (map_of (data b) k)))) ps"
  by (induction ps res rule: list_all2_induct) (auto simp: merged_from_iff)

lemma vdna_add_map_form:
  assumes "same_schema a b" and "wf_vdna a" and "wf_vdna b"
  shows "vdna_add a b =
    Inr \<lparr>data = map (\<lambda>(k, pa). (k, merge_layer (num_images a) (num_images b) pa (the (map_of (data b) k))))
                   (data a),
         num_images = num_images a + num_images b\<rparr>"
proof -
  from vdna_add_same_schema [OF assms] obtain res where
    "list_all2 (merged_from a b) (data a) res"
    "vdna_add a b = Inr \<lparr>data = res, num_images = num_images a + num_images b\<rparr>" by blast
  then show ?thesis using merged_as_map [of a b "data a" res] by simp
qed

lemma schema_layers:
  assumes "same_schema a b" and "wf_vdna a" and "wf_vdna b" and "map_of (data a) k = Some pa"
  shows "\<exists>pb. map_of (data b) k = Some pb \<and> length (var pa) = length (mu pa) \<and>
    length (mu pb) = length (mu pa) \<and> length (var pb) = length (mu pa)"
proof -
  have mem: "(k, pa) \<in> set (data a)" using assms(4) by (rule map_of_SomeD)
  have d: "distinct (map fst (data a))" using assms(2) by (simp add: wf_vdna_def)
  from same_schema_lookup [OF assms(1) d mem] obtain pb where
    pb: "map_of (data b) k = Some pb" "length (mu pb) = length (mu pa)" by blast
  then have "(k, pb) \<in> set (data b)" by (auto dest: map_of_SomeD)
  then have "length (var pb) = length (mu pb)" using assms(3) by (auto simp: wf_vdna_def list_all_iff)
  moreover have "length (var pa) = length (mu pa)" using assms(2) mem by (auto simp: wf_vdna_def list_all_iff)
  ultimately show ?thesis using pb by simp
qed

lemma vdna_add_lookup:
  assumes "same_schema a b" and "wf_vdna a" and "wf_vdna b" and "vdna_add a b = Inr ab"
  shows "map_of (data ab) k =
    map_option (\<lambda>pa. merge_layer (num_images a) (num_images b) pa (the (map_of (data b) k))) (map_of (data a) k)"
    and "map fst (data ab) = map fst (data a)"
    and "num_images ab = num_images a + num_images b"
proof -
  have ab: "ab = \<lparr>data = map (\<lambda>(k, pa). (k, merge_layer (num_images a) (num_images b) pa (the (map_of (data b) k))))
                   (data a),
         num_images = num_images a + num_images b\<rparr>"
    using assms(4) unfolding vdna_add_map_form [OF assms(1-3)] by simp
  show "map_of (data ab) k =
    map_option (\<lambda>pa. merge_layer (num_images a) (num_images b) pa (the (map_of (data b) k))) (map_of (data a) k)"
    unfolding ab by (simp add: map_of_map_keyed)
  show "map fst (data ab) = map fst (data a)"
    unfolding ab by (simp add: case_prod_unfold comp_def)
  show "num_images ab = num_images a + num_images b"
    unfolding ab by simp
qed

lemma vdna_add_wf:
  assumes "same_schema a b" and "wf_vdna a" and "wf_vdna b" and "vdna_add a b = Inr ab"
  shows "wf_vdna ab" and "same_schema a ab"
proof -
  note lk = vdna_add_lookup [OF assms]
  have len: "length (mu p) = length (mu pa) \<and> length (var p) = length (mu pa)"
    if "map_of (data a) k = Some pa" and "map_of (data ab) k = Some p" for k pa p
  proof -
    from schema_layers [OF assms(1-3) that(1)] obtain pb where
      pb: "map_of (data b) k = Some pb" and l: "length (var pa) = length (mu pa)"
      "length (mu pb) = length (mu pa)" "length (var pb) = length (mu pa)" by blast
    have "p = merge_layer (num_images a) (num_images b) pa pb"
      using that lk(1) [of k] pb by simp
    then show ?thesis
      using length_merge_layer [OF refl l, of "num_images a" "num_images b"] by simp
  qed
  have d: "distinct (map fst (data ab))" using assms(2) by (simp add: lk(2) wf_vdna_def)
  have "list_all (\<lambda>(l, p). length (var p) = length (mu p)) (data ab)"
    unfolding list_all_iff
  proof (clarify)
    fix k p assume "(k, p) \<in> set (data ab)"
    then have p: "map_of (data ab) k = Some p" using d by simp
    then obtain pa where "map_of (data a) k = Some pa" using lk(1) [of k] by auto
    from len [OF this p] show "length (var p) = length (mu p)" by simp
  qed
  with d show "wf_vdna ab" by (simp add: wf_vdna_def)
  show "same_schema a ab"
    unfolding same_schema_def list_all_iff
  proof (intro conjI ballI)
    show "set (map fst (data a)) = set (map fst (data ab))" by (simp add: lk(2))
  next
    fix k assume "k \<in> set (map fst (data a))"
    then obtain pa where pa: "map_of (data a) k = Some pa"
      by (metis map_of_eq_None_iff not_Some_eq set_map)
    then obtain p where p: "map_of (data ab) k = Some p" using lk(1) [of k] by auto
    from len [OF pa p] pa p
    show "map_option (\<lambda>p. length (mu p)) (map_of (data a) k) =
        map_option (\<lambda>p. length (mu p)) (map_of (data ab) k)" by simp
  qed
qed

lemma same_schema_None:
  assumes "same_schema a b" and "map_of (data a) k = None"
  shows "map_of (data b) k = None"
proof -
  have "k \<notin> set (map fst (data a))" using assms(2) by (simp add: map_of_eq_None_iff)
  moreover have "set (map fst (data a)) = set (map fst (data b))"
    using assms(1) unfolding same_schema_iff by (rule conjunct1)
  ultimately have "k \<notin> set (map fst (data b))" by simp
  then show ?thesis by (simp add: map_of_eq_None_iff)
qed

lemma vdna_add_commute:
  assumes "wf_vdna a" and "wf_vdna b" and "same_schema a b"
    and "vdna_add a b = Inr ab" and "vdna_add b a = Inr ba"
  shows "map_of (data ab) k = map_of (data ba) k" and "num_images ab = num_images ba"
proof -
  have sba: "same_schema b a" using assms(3) by (rule same_schema_sym)
  note lab = vdna_add_lookup [OF assms(3,1,2,4)]
  note lba = vdna_add_lookup [OF sba assms(2,1,5)]
  show "num_images ab = num_images ba" unfolding lab(3) lba(3) by simp
  show "map_of (data ab) k = map_of (data ba) k"
  proof (cases "map_of (data a) k")
    case None
    have "map_of (data b) k = None" by (rule same_schema_None [OF assms(3) None])
    then show ?thesis unfolding lab(1) lba(1) None by simp
  next
    case (Some pa)
    from schema_layers [OF assms(3,1,2) Some] obtain pb where
      pb: "map_of (data b) k = Some pb" and l: "length (var pa) = length (mu pa)"
      "length (mu pb) = length (mu pa)" "length (var pb) = length (mu pa)" by blast
    have "merge_layer (num_images a) (num_images b) pa pb = merge_layer (num_images b) (num_images a) pb pa"
      by (rule merge_layer_commute [OF refl l])
    then show ?thesis unfolding lab(1) lba(1) Some pb by simp
  qed
qed

lemma vdna_add_assoc:
  assumes "wf_vdna a" and "wf_vdna b" and "wf_vdna c"
    and "same_schema a b" and "same_schema b c"
    and "0 < num_images a" and "0 < num_images b" and "0 < num_images c"
    and ab: "vdna_add a b = Inr ab" and bc: "vdna_add b c = Inr bc"
  shows "\<exists>abc. vdna_add ab c = Inr abc \<and> vdna_add a bc = Inr abc"
proof -
  note lab = vdna_add_lookup [OF assms(4,1,2) ab]
  note lbc = vdna_add_lookup [OF assms(5,2,3) bc]
  note wab = vdna_add_wf [OF assms(4,1,2) ab]
  note wbc = vdna_add_wf [OF assms(5,2,3) bc]
  have sabc: "same_schema ab c"
    by (rule same_schema_trans [OF same_schema_trans [OF same_schema_sym [OF wab(2)] assms(4)] assms(5)])
  have sabc': "same_schema a bc"
    by (rule same_schema_trans [OF assms(4) wbc(2)])
  have l: "vdna_add ab c =
    Inr \<lparr>data = map (\<lambda>(k, p). (k, merge_layer (num_images ab) (num_images c) p (the (map_of (data c) k))))
                   (data ab),
         num_images = num_images ab + num_images c\<rparr>"
    by (rule vdna_add_map_form [OF sabc wab(1) assms(3)])
  have r: "vdna_add a bc =
    Inr \<lparr>data = map (\<lambda>(k, p). (k, merge_layer (num_images a) (num_images bc) p (the (map_of (data bc) k))))
                   (data a),
         num_images = num_images a + num_images bc\<rparr>"
    by (rule vdna_add_map_form [OF sabc' assms(1) wbc(1)])
  have dab: "data ab = map (\<lambda>(k, pa). (k, merge_layer (num_images a) (num_images b) pa (the (map_of (data b) k))))
      (data a)"
    using ab unfolding vdna_add_map_form [OF assms(4,1,2)] by auto
  have "map (\<lambda>(k, p). (k, merge_layer (num_images ab) (num_images c) p (the (map_of (data c) k)))) (data ab) =
      map (\<lambda>(k, pa). (k, merge_layer (num_images a + num_images b) (num_images c)
              (merge_layer (num_images a) (num_images b) pa (the (map_of (data b) k)))
              (the (map_of (data c) k)))) (data a)"
    unfolding dab lab(3) by (simp add: case_prod_unfold comp_def)
  also have "\<dots> =
      map (\<lambda>(k, p). (k, merge_layer (num_images a) (num_images bc) p (the (map_of (data bc) k)))) (data a)"
  proof (rule map_cong [OF refl])
    fix x assume xm: "x \<in> set (data a)"
    obtain k pa where x: "x = (k, pa)" by (cases x)
    have mem: "(k, pa) \<in> set (data a)" using xm x by simp
    have "distinct (map fst (data a))" using assms(1) by (simp add: wf_vdna_def)
    then have pa: "map_of (data a) k = Some pa" using mem by simp
    from schema_layers [OF assms(4,1,2) pa] obtain pb where
      pb: "map_of (data b) k = Some pb" and la: "length (var pa) = length (mu pa)"
      and lb: "length (mu pb) = length (mu pa)" "length (var pb) = length (mu pa)" by blast
    from schema_layers [OF assms(5,2,3) pb] obtain pc where
      pc: "map_of (data c) k = Some pc" and lc: "length (mu pc) = length (mu pb)"
      "length (var pc) = length (mu pb)" by blast
    have lc': "length (mu pc) = length (mu pa)" "length (var pc) = length (mu pa)"
      using lc lb by simp_all
    have e: "merge_layer (num_images a + num_images b) (num_images c)
            (merge_layer (num_images a) (num_images b) pa pb) pc =
          merge_layer (num_images a) (num_images b + num_images c) pa
            (merge_layer (num_images b) (num_images c) pb pc)"
      by (rule merge_layer_assoc [OF refl la lb lc' assms(6-8)])
    show "(case x of (k, pa) \<Rightarrow> (k, merge_layer (num_images a + num_images b) (num_images c)
              (merge_layer (num_images a) (num_images b) pa (the (map_of (data b) k)))
              (the (map_of (data c) k)))) =
        (case x of (k, p) \<Rightarrow> (k, merge_layer (num_images a) (num_images bc) p (the (map_of (data bc) k))))"
      using e pb pc by (simp add: x lbc(1) lbc(3))
  qed
  finally have d: "map (\<lambda>(k, p). (k, merge_layer (num_images ab) (num_images c) p (the (map_of (data c) k)))) (data ab) =
      map (\<lambda>(k, p). (k, merge_layer (num_images a) (num_images bc) p (the (map_of (data bc) k)))) (data a)" .
  have n: "num_images ab + num_images c = num_images a + num_images bc"
    unfolding lab(3) lbc(3) by simp
  have "vdna_add ab c = vdna_add a bc"
    unfolding l r d n ..
  with l show ?thesis by simp
qed

text \<open>
  Claim C7. For distributions \<open>a\<close>, \<open>b\<close>, \<open>c\<close> of the same schema with positive sample
  counts (so that no denominator is zero), \<open>vdna_add a b\<close> and \<open>vdna_add b a\<close> both succeed
  with the same sample count and the same \<open>mu\<close> and \<open>var\<close> for every layer, and
  \<open>vdna_add (vdna_add a b) c\<close> and \<open>vdna_add a (vdna_add b c)\<close> succeed with one and the
  same result: every \<open>mu\<close> and \<open>var\<close> entry and the sample count.
\<close>

theorem vdna_add_commutative_associative:
  assumes "wf_vdna a" and "wf_vdna b" and "wf_vdna c"
    and "same_schema a b" and "same_schema b c"
    and "0 < num_images a" and "0 < num_images b" and "0 < num_images c"
  shows "\<exists>ab ba bc abc.
      vdna_add a b = Inr ab \<and> vdna_add b a = Inr ba \<and>
      num_images ab = num_images ba \<and> (\<forall>k. map_of (data ab) k = map_of (data ba) k) \<and>
      vdna_add b c = Inr bc \<and> vdna_add ab c = Inr abc \<and> vdna_add a bc = Inr abc"
proof -
  have sba: "same_schema b a" using assms(4) by (rule same_schema_sym)
  obtain ab where ab: "vdna_add a b = Inr ab" using vdna_add_map_form [OF assms(4,1,2)] by blast
  obtain ba where ba: "vdna_add b a = Inr ba" using vdna_add_map_form [OF sba assms(2,1)] by blast
  obtain bc where bc: "vdna_add b c = Inr bc" using vdna_add_map_form [OF assms(5,2,3)] by blast
  from vdna_add_assoc [OF assms ab bc] obtain abc where
    abc: "vdna_add ab c = Inr abc" "vdna_add a bc = Inr abc" by blast
  have "num_images ab = num_images ba"
    by (rule vdna_add_commute(2) [OF assms(1,2,4) ab ba])
  moreover have "\<forall>k. map_of (data ab) k = map_of (data ba) k"
    using vdna_add_commute(1) [OF assms(1,2,4) ab ba] by simp
  ultimately have "vdna_add a b = Inr ab \<and> vdna_add b a = Inr ba \<and>
      num_images ab = num_images ba \<and> (\<forall>k. map_of (data ab) k = map_of (data ba) k) \<and>
      vdna_add b c = Inr bc \<and> vdna_add ab c = Inr abc \<and> vdna_add a bc = Inr abc"
    using ab ba bc abc by simp
  then show ?thesis by (intro exI)
qed

theorem vdna_add_commutative_associative_witness:
  "\<exists>ab ba bc abc.
      vdna_add \<lparr>data = [(''L'', \<lparr>mu = [Some 1], var = [Some 0]\<rparr>)], num_images = 1\<rparr>
               \<lparr>data = [(''L'', \<lparr>mu = [Some 3], var = [Some 0]\<rparr>)], num_images = 1\<rparr> = Inr ab \<and>
      vdna_add \<lparr>data = [(''L'', \<lparr>mu = [Some 3], var = [Some 0]\<rparr>)], num_images = 1\<rparr>
               \<lparr>data = [(''L'', \<lparr>mu = [Some 1], var = [Some 0]\<rparr>)], num_images = 1\<rparr> = Inr ba \<and>
      num_images ab = num_images ba \<and> (\<forall>k. map_of (data ab) k = map_of (data ba) k) \<and>
      vdna_add \<lparr>data = [(''L'', \<lparr>mu = [Some 3], var = [Some 0]\<rparr>)], num_images = 1\<rparr>
               \<lparr>data = [(''L'', \<lparr>mu = [Some 5], var = [Some 2]\<rparr>)], num_images = 2\<rparr> = Inr bc \<and>
      vdna_add ab \<lparr>data = [(''L'', \<lparr>mu = [Some 5], var = [Some 2]\<rparr>)], num_images = 2\<rparr> = Inr abc \<and>
      vdna_add \<lparr>data = [(''L'', \<lparr>mu = [Some 1], var = [Some 0]\<rparr>)], num_images = 1\<rparr> bc = Inr abc"
proof -
  have w: "wf_vdna \<lparr>data = [(''L'', \<lparr>mu = [Some 1], var = [Some 0]\<rparr>)], num_images = 1\<rparr>"
    "wf_vdna \<lparr>data = [(''L'', \<lparr>mu = [Some 3], var = [Some 0]\<rparr>)], num_images = 1\<rparr>"
    "wf_vdna \<lparr>data = [(''L'', \<lparr>mu = [Some 5], var = [Some 2]\<rparr>)], num_images = 2\<rparr>"
    by (simp_all add: wf_vdna_def)
  have s: "same_schema \<lparr>data = [(''L'', \<lparr>mu = [Some 1], var = [Some 0]\<rparr>)], num_images = 1\<rparr>
      \<lparr>data = [(''L'', \<lparr>mu = [Some 3], var = [Some 0]\<rparr>)], num_images = 1\<rparr>"
    "same_schema \<lparr>data = [(''L'', \<lparr>mu = [Some 3], var = [Some 0]\<rparr>)], num_images = 1\<rparr>
      \<lparr>data = [(''L'', \<lparr>mu = [Some 5], var = [Some 2]\<rparr>)], num_images = 2\<rparr>"
    by (simp_all add: same_schema_def)
  have n: "0 < num_images \<lparr>data = [(''L'', \<lparr>mu = [Some 1], var = [Some 0]\<rparr>)], num_images = 1\<rparr>"
    "0 < num_images \<lparr>data = [(''L'', \<lparr>mu = [Some 3], var = [Some 0]\<rparr>)], num_images = 1\<rparr>"
    "0 < num_images \<lparr>data = [(''L'', \<lparr>mu = [Some 5], var = [Some 2]\<rparr>)], num_images = 2\<rparr>"
    by simp_all
  show ?thesis
    by (rule vdna_add_commutative_associative [OF w s n])
qed

lemma merge_singletons_example:
  "vdna_add \<lparr>data = [(''L'', \<lparr>mu = [Some 1], var = [Some 0]\<rparr>)], num_images = 1\<rparr>
            \<lparr>data = [(''L'', \<lparr>mu = [Some 3], var = [Some 0]\<rparr>)], num_images = 1\<rparr> =
   Inr \<lparr>data = [(''L'', \<lparr>mu = [Some 2], var = [Some 2]\<rparr>)], num_images = 2\<rparr>"
  by (simp add: vdna_add_def common_before_add_def same_schema_def new_VDNAGauss_def dict_get_def
      add_mu_def add_var_def bcast_def tscale_def tdiv_def tsquare_def)

subsection \<open>Saving and loading\<close>

lemma save_loop_lookup:
  assumes "\<forall>(l, p) \<in> set ps. dict_get d l = Inr p"
    and "distinct (map fst ps)"
    and "\<forall>l \<in> fst ` set ps. \<forall>l' \<in> fst ` set ps. l \<noteq> ''mu-'' @ l' \<and> l \<noteq> ''var-'' @ l'"
  shows "\<exists>acc'. save_loop f32 d (map fst ps) acc = Inr acc' \<and>
      (\<forall>(l, p) \<in> set ps.
          map_of acc' (''mu-'' @ l) = Some (NpArray (map f32 (mu p))) \<and>
          map_of acc' (''var-'' @ l) = Some (NpArray (map f32 (var p)))) \<and>
      (\<forall>k. (\<forall>l \<in> fst ` set ps. k \<noteq> l \<and> k \<noteq> ''mu-'' @ l \<and> k \<noteq> ''var-'' @ l) \<longrightarrow>
          map_of acc' k = map_of acc k)"
  using assms
proof (induction ps arbitrary: acc)
  case Nil
  then show ?case by simp
next
  case (Cons x ps)
  obtain l p where x: "x = (l, p)" by (cases x)
  define acc1 where "acc1 =
    dict_set (dict_set (dict_set acc l NpObject) (''mu-'' @ l) (NpArray (map f32 (mu p))))
      (''var-'' @ l) (NpArray (map f32 (var p)))"
  have g: "dict_get d l = Inr p" using Cons.prems(1) x by simp
  have step: "save_loop f32 d (map fst (x # ps)) acc = save_loop f32 d (map fst ps) acc1"
    using x g by (simp add: acc1_def)
  have m1: "map_of acc1 =
      (map_of acc)(l \<mapsto> NpObject, ''mu-'' @ l \<mapsto> NpArray (map f32 (mu p)),
                   ''var-'' @ l \<mapsto> NpArray (map f32 (var p)))"
    by (simp add: acc1_def map_of_dict_set)
  have "\<exists>acc'. save_loop f32 d (map fst ps) acc1 = Inr acc' \<and>
      (\<forall>(l, p) \<in> set ps.
          map_of acc' (''mu-'' @ l) = Some (NpArray (map f32 (mu p))) \<and>
          map_of acc' (''var-'' @ l) = Some (NpArray (map f32 (var p)))) \<and>
      (\<forall>k. (\<forall>l \<in> fst ` set ps. k \<noteq> l \<and> k \<noteq> ''mu-'' @ l \<and> k \<noteq> ''var-'' @ l) \<longrightarrow>
          map_of acc' k = map_of acc1 k)"
    using Cons.prems by (intro Cons.IH) auto
  then obtain acc' where s: "save_loop f32 d (map fst ps) acc1 = Inr acc'"
    and e: "\<And>l p. (l, p) \<in> set ps \<Longrightarrow>
          map_of acc' (''mu-'' @ l) = Some (NpArray (map f32 (mu p))) \<and>
          map_of acc' (''var-'' @ l) = Some (NpArray (map f32 (var p)))"
    and u: "\<And>k. (\<forall>l \<in> fst ` set ps. k \<noteq> l \<and> k \<noteq> ''mu-'' @ l \<and> k \<noteq> ''var-'' @ l) \<Longrightarrow>
          map_of acc' k = map_of acc1 k"
    by blast
  have fresh: "l \<notin> fst ` set ps" using Cons.prems(2) x by auto
  have nc: "\<And>l'. l' \<in> fst ` set ps \<Longrightarrow> l' \<noteq> ''mu-'' @ l \<and> l' \<noteq> ''var-'' @ l"
    using Cons.prems(3) x by auto
  have "\<forall>l' \<in> fst ` set ps. ''mu-'' @ l \<noteq> l' \<and> ''mu-'' @ l \<noteq> ''mu-'' @ l' \<and> ''mu-'' @ l \<noteq> ''var-'' @ l'"
    using fresh nc by auto
  then have a: "map_of acc' (''mu-'' @ l) = Some (NpArray (map f32 (mu p)))"
    using u [of "''mu-'' @ l"] by (simp add: m1)
  have "\<forall>l' \<in> fst ` set ps. ''var-'' @ l \<noteq> l' \<and> ''var-'' @ l \<noteq> ''mu-'' @ l' \<and> ''var-'' @ l \<noteq> ''var-'' @ l'"
    using fresh nc by auto
  then have b: "map_of acc' (''var-'' @ l) = Some (NpArray (map f32 (var p)))"
    using u [of "''var-'' @ l"] by (simp add: m1)
  have c: "map_of acc' k = map_of acc k"
    if "\<forall>l \<in> fst ` set (x # ps). k \<noteq> l \<and> k \<noteq> ''mu-'' @ l \<and> k \<noteq> ''var-'' @ l" for k
  proof -
    have "map_of acc' k = map_of acc1 k" using that by (intro u) simp
    also have "\<dots> = map_of acc k" using that x by (simp add: m1)
    finally show ?thesis .
  qed
  have 1: "save_loop f32 d (map fst (x # ps)) acc = Inr acc'"
    using step s by (simp only:)
  have 2: "\<forall>(l, p) \<in> set (x # ps).
          map_of acc' (''mu-'' @ l) = Some (NpArray (map f32 (mu p))) \<and>
          map_of acc' (''var-'' @ l) = Some (NpArray (map f32 (var p)))"
  proof (clarify)
    fix l' p' assume "(l', p') \<in> set (x # ps)"
    then consider "(l', p') = (l, p)" | "(l', p') \<in> set ps" using x by auto
    then show "map_of acc' (''mu-'' @ l') = Some (NpArray (map f32 (mu p'))) \<and>
          map_of acc' (''var-'' @ l') = Some (NpArray (map f32 (var p')))"
    proof cases
      case 1
      then show ?thesis using a b by (simp only: prod.inject)
    next
      case 2
      then show ?thesis by (rule e)
    qed
  qed
  have 3: "\<forall>k. (\<forall>l \<in> fst ` set (x # ps). k \<noteq> l \<and> k \<noteq> ''mu-'' @ l \<and> k \<noteq> ''var-'' @ l) \<longrightarrow>
          map_of acc' k = map_of acc k"
    using c by blast
  from 1 2 3 show ?case by blast
qed

text \<open>
  When no layer is named \<^verbatim>\<open>mu-\<close> or \<^verbatim>\<open>var-\<close> followed by a layer name, saving and then
  loading from the same path with the layer names of the distribution gives back every
  \<open>mu\<close> and \<open>var\<close>, each entry cast to 32-bit precision by \<open>f32\<close>.
\<close>

lemma save_then_load_round_trip:
  assumes "distinct (map fst (data d))"
    and "\<forall>l \<in> set (map fst (data d)). \<forall>l' \<in> set (map fst (data d)). l \<noteq> ''mu-'' @ l' \<and> l \<noteq> ''var-'' @ l'"
  shows "bindE (save_dist_data f32 npz d fs file_path)
           (\<lambda>fs'. load_dist_data npz (map fst (data d)) self fs' file_path) =
         Inr (self\<lparr>data := map (\<lambda>(l, p). (l, \<lparr>mu = map f32 (mu p), var = map f32 (var p)\<rparr>)) (data d)\<rparr>)"
proof -
  have "\<forall>(l, p) \<in> set (data d). dict_get (data d) l = Inr p"
    using assms(1) by (auto simp: dict_get_mem)
  moreover have "\<forall>l \<in> fst ` set (data d). \<forall>l' \<in> fst ` set (data d). l \<noteq> ''mu-'' @ l' \<and> l \<noteq> ''var-'' @ l'"
    using assms(2) by (simp only: set_map)
  ultimately have "\<exists>acc'. save_loop f32 (data d) (map fst (data d)) [] = Inr acc' \<and>
      (\<forall>(l, p) \<in> set (data d).
          map_of acc' (''mu-'' @ l) = Some (NpArray (map f32 (mu p))) \<and>
          map_of acc' (''var-'' @ l) = Some (NpArray (map f32 (var p)))) \<and>
      (\<forall>k. (\<forall>l \<in> fst ` set (data d). k \<noteq> l \<and> k \<noteq> ''mu-'' @ l \<and> k \<noteq> ''var-'' @ l) \<longrightarrow>
          map_of acc' k = map_of [] k)"
    using assms(1) by (intro save_loop_lookup)
  then obtain ar where s: "save_loop f32 (data d) (map fst (data d)) [] = Inr ar"
    and e: "\<And>l p. (l, p) \<in> set (data d) \<Longrightarrow>
          map_of ar (''mu-'' @ l) = Some (NpArray (map f32 (mu p))) \<and>
          map_of ar (''var-'' @ l) = Some (NpArray (map f32 (var p)))"
    by blast
  have "list_all2 (loaded_from ar) (map fst (data d))
      (map (\<lambda>(l, p). (l, \<lparr>mu = map f32 (mu p), var = map f32 (var p)\<rparr>)) (data d))"
    unfolding list_all2_map1 list_all2_map2 list_all2_same
    using e by (auto simp: loaded_from_def np_get_def)
  then have "load_loop ar (map fst (data d)) [] =
      Inr ([] @ map (\<lambda>(l, p). (l, \<lparr>mu = map f32 (mu p), var = map f32 (var p)\<rparr>)) (data d))"
    using assms(1) by (intro load_loop_items) simp_all
  then show ?thesis
    using s by (simp add: save_dist_data_def load_dist_data_def)
qed

text \<open>
  Claim C8 asks for this round trip for every non-empty distribution. The code breaks it
  at the layers \<^verbatim>\<open>x\<close>, \<^verbatim>\<open>mu-x\<close> (in this order): saving
  stores the means of \<^verbatim>\<open>x\<close> under the key \<^verbatim>\<open>mu-x\<close> and then overwrites that key with the
  empty dictionary that \<^verbatim>\<open>data[layer] = {}\<close> stores for the layer \<^verbatim>\<open>mu-x\<close>; loading the
  layer \<^verbatim>\<open>x\<close> from the same path finds no array there and raises.
\<close>

theorem save_then_load_key_collision:
  "bindE (save_dist_data f32 npz
            \<lparr>data = [(''x'', \<lparr>mu = [Some 1], var = [Some 0]\<rparr>),
                     (''mu-x'', \<lparr>mu = [Some 2], var = [Some 0]\<rparr>)], num_images = 1\<rparr> fs file_path)
         (\<lambda>fs'. load_dist_data npz [''x'', ''mu-x''] new_VDNAGauss fs' file_path) =
   Inl ValueError"
  by (simp add: save_dist_data_def load_dist_data_def dict_get_def np_get_def)

end
